theory Spec2Isabelle
  imports Complex_Main "HOL-Library.Sublist"
begin

section \<open>JavaScript values and string primitives\<close>

text \<open>
  The functions of the functional core are called on dynamically typed values. The
  primitive values are enough for the code modelled here; of a number only its
  \<open>typeof\<close> is ever read, so it carries no payload. Strings are lists of
  code units; the type \<open>char\<close> covers the code units up to U+00FF.
\<close>

datatype jsval = JSUndefined | JSNull | JSBoolean bool | JSNumber | JSString string

fun typeof :: "jsval \<Rightarrow> string" where
  "typeof JSUndefined = ''undefined''"
| "typeof JSNull = ''object''"
| "typeof (JSBoolean b) = ''boolean''"
| "typeof JSNumber = ''number''"
| "typeof (JSString s) = ''string''"

text \<open>
  What a \<open>throw\<close> carries: an \<open>Error\<close> with its message, or the
  \<open>TypeError\<close> of a method call on a value that has no such method.
\<close>

datatype exn = Error string | TypeError

text \<open>\<open>s.startsWith(p)\<close>\<close>

fun startsWith :: "string \<Rightarrow> string \<Rightarrow> bool" where
  "startsWith s [] = True"
| "startsWith [] (p # ps) = False"
| "startsWith (c # cs) (p # ps) = (c = p \<and> startsWith cs ps)"

text \<open>\<open>s.includes(sub)\<close>: \<open>sub\<close> occurs at some position of \<open>s\<close>.\<close>

fun includesStr :: "string \<Rightarrow> string \<Rightarrow> bool" where
  "includesStr [] sub = (sub = [])"
| "includesStr (c # cs) sub = (startsWith (c # cs) sub \<or> includesStr cs sub)"

text \<open>
  \<open>s.split(sep)\<close> for a one-character separator: the pieces between the
  separators, in order. The result is never empty (\<open>''.split(',')\<close> is \<open>['']\<close>).
\<close>

fun split :: "char \<Rightarrow> string \<Rightarrow> string list" where
  "split sep [] = [[]]"
| "split sep (c # cs) =
     (if c = sep then [] # split sep cs
      else (case split sep cs of
              [] \<Rightarrow> [[c]]
            | piece # pieces \<Rightarrow> (c # piece) # pieces))"

text \<open>
  The regular expression \<open>/:(.*?);/\<close> of \<open>parseDataUrl\<close>. The dot matches every
  code unit but a line terminator; the group is lazy, so from a given colon it ends
  at the first semicolon, and fails when a line terminator comes before one. The
  match starts at the leftmost colon from which the rest matches. \<open>matchMime\<close>
  returns capture group 1, \<open>None\<close> when \<open>match\<close> returns \<open>null\<close>.
\<close>

definition isLineTerminator :: "char \<Rightarrow> bool" where
  "isLineTerminator c = (c = CHR 0x0A \<or> c = CHR 0x0D)"

fun lazyUntilSemicolon :: "string \<Rightarrow> string option" where
  "lazyUntilSemicolon [] = None"
| "lazyUntilSemicolon (c # cs) =
     (if c = CHR '';'' then Some []
      else if isLineTerminator c then None
      else map_option ((#) c) (lazyUntilSemicolon cs))"

fun matchMime :: "string \<Rightarrow> string option" where
  "matchMime [] = None"
| "matchMime (c # cs) =
     (if c = CHR '':'' then
        (case lazyUntilSemicolon cs of
           Some g \<Rightarrow> Some g
         | None \<Rightarrow> matchMime cs)
      else matchMime cs)"


section \<open>Functional core\<close>

text \<open>
  A frame object. \<open>data\<close> and \<open>mimeType\<close> are optional: the typedef declares
  them, but the objects that \<open>styleFrames\<close> pushes are \<open>{ src: ... }\<close> alone, and
  \<open>dataUrl.split(',')[1]\<close> is \<open>undefined\<close> when there is no comma.
\<close>

record Frame =
  data :: "string option"
  mimeType :: "string option"
  src :: string

text \<open>\<open>isValidApiKey\<close>: the conjunction is evaluated left to right and stops at the
  first false operand, so \<open>length\<close> and \<open>startsWith\<close> are only read of a string.\<close>

definition isValidApiKey :: "jsval \<Rightarrow> bool" where
  "isValidApiKey key =
     (if typeof key = ''string'' then
        (case key of
           JSString s \<Rightarrow> (if length s > 10 then startsWith s ''AIza'' else False)
         | _ \<Rightarrow> False)
      else False)"

text \<open>
  \<open>parseDataUrl\<close>. On a value that is not a string, \<open>dataUrl.split\<close> is a call
  of \<open>undefined\<close> (or a property read of \<open>null\<close>/\<open>undefined\<close>): a TypeError.
  The destructuring takes the first two pieces; the second is \<open>undefined\<close> when
  there is none. The default \<open>'image/jpeg'\<close> is taken when there is no match and
  when the group is the empty string (which is falsy).
\<close>

definition parseDataUrl :: "jsval \<Rightarrow> exn + (string \<times> string option)" where
  "parseDataUrl dataUrl =
     (case dataUrl of
        JSString s \<Rightarrow>
          (let parts = split CHR '','' s;
               header = (case parts of [] \<Rightarrow> [] | h # _ \<Rightarrow> h);
               data = (case parts of _ # d # _ \<Rightarrow> Some d | _ \<Rightarrow> None);
               mimeType = (case matchMime header of
                             None \<Rightarrow> ''image/jpeg''
                           | Some g \<Rightarrow> (if g = [] then ''image/jpeg'' else g))
           in Inr (mimeType, data))
      | _ \<Rightarrow> Inl TypeError)"

definition createDataUrl :: "string \<Rightarrow> string \<Rightarrow> string" where
  "createDataUrl mime payload = ''data:'' @ mime @ '';base64,'' @ payload"

definition createFrame :: "string \<Rightarrow> string \<Rightarrow> Frame" where
  "createFrame payload mime =
     \<lparr>data = Some payload, mimeType = Some mime, src = createDataUrl mime payload\<rparr>"

definition createStylePrompt :: "string \<Rightarrow> string" where
  "createStylePrompt style = ''Transform this image into a '' @ style @ '' style.''"

record CodecOption =
  mimeType :: string
  extension :: string

definition codecOptions :: "CodecOption list" where
  "codecOptions =
     [\<lparr>mimeType = ''video/webm; codecs=vp9'', extension = ''webm''\<rparr>,
      \<lparr>mimeType = ''video/webm; codecs=vp8'', extension = ''webm''\<rparr>,
      \<lparr>mimeType = ''video/mp4'', extension = ''mp4''\<rparr>,
      \<lparr>mimeType = ''video/webm'', extension = ''webm''\<rparr>]"

text \<open>\<open>selectBestCodec\<close>: \<open>find\<close> returns the first option whose type is in
  \<open>supportedTypes\<close>; \<open>undefined || null\<close> is \<open>None\<close>.\<close>

definition selectBestCodec :: "string list \<Rightarrow> CodecOption option" where
  "selectBestCodec supportedTypes =
     find (\<lambda>option. CodecOption.mimeType option \<in> set supportedTypes) codecOptions"

text \<open>Decimal rendering of an index inside a template literal.\<close>

function showNat :: "nat \<Rightarrow> string" where
  "showNat n =
     (if n < 10 then [''0123456789'' ! n]
      else showNat (n div 10) @ [''0123456789'' ! (n mod 10)])"
  by pat_completeness auto
termination
  by (relation "measure (\<lambda>n. n)") auto

declare showNat.simps [simp del]


section \<open>Environment and application state\<close>

text \<open>
  What one styling call gives back: a response, of which the code reads the first
  part that has \<open>inlineData\<close> (its \<open>mimeType\<close> and \<open>data\<close>, or no such part),
  or a rejection, of which the code reads \<open>error.toString()\<close>.
\<close>

datatype ApiOutcome = Responded "(string \<times> string) option" | Failed string

text \<open>
  Everything the browser and the network decide. \<open>generateContent k\<close> is the outcome
  of the \<open>k\<close>-th call made to the styling API (counted from 0 over the whole run),
  so that the outcome of a call may depend on everything that came before it.
  \<open>imageLoads\<close> tells whether an \<open>Image\<close> with that source fires \<open>onload\<close>
  (rather than \<open>onerror\<close>); \<open>toDataURL\<close> is the data URL that the canvas gives
  for the image with that source drawn at the preview scale; \<open>recorderConstructs\<close>
  tells whether \<open>new MediaRecorder\<close> returns rather than throws.
\<close>

record Env =
  generateContent :: "nat \<Rightarrow> ApiOutcome"
  styleSelectValue :: string
  imageLoads :: "string \<Rightarrow> bool"
  toDataURL :: "string \<Rightarrow> string"
  isTypeSupported :: "string \<Rightarrow> bool"
  recorderConstructs :: "string \<Rightarrow> bool"
  recorderErrors :: bool
  createObjectURL :: string
  dateNow :: nat

datatype Effect =
    SetLoading bool string
  | OnProgress nat nat
  | Request "string option" "string option" string
  | ShowError string
  | RemoveStoredKey
  | ShowApiKeyModal
  | StartOutputAnimation
  | RecorderStart string nat
  | DrawImage string
  | FillBlack
  | RecorderStop
  | ShowVideo string
  | ShowDownloadButton

text \<open>The globals of the page script, the number of styling calls made so far, and
  the visible effects in the order they happened.\<close>

record World =
  apiCalls :: nat
  trace :: "Effect list"
  stylizedFrames :: "Frame list"
  downloadableUrl :: "string option"
  downloadableFilename :: string

definition emit :: "Effect \<Rightarrow> World \<Rightarrow> World" where
  "emit e w = w\<lparr>trace := trace w @ [e]\<rparr>"

definition setLoading :: "bool \<Rightarrow> string \<Rightarrow> World \<Rightarrow> World" where
  "setLoading isLoading message w = emit (SetLoading isLoading message) w"

definition showError :: "string \<Rightarrow> World \<Rightarrow> World" where
  "showError message w = emit (ShowError message) w"

text \<open>The call \<open>ai.models.generateContent\<close>: its outcome is the environment's for
  the current call number; the world records the request and counts the call.\<close>

definition requested :: "Frame \<Rightarrow> string \<Rightarrow> World \<Rightarrow> World" where
  "requested frame prompt w =
     (emit (Request (data frame) (Frame.mimeType frame) prompt) w)\<lparr>apiCalls := apiCalls w + 1\<rparr>"


section \<open>Batch styling\<close>

text \<open>The test of the \<open>catch\<close> block of \<open>styleFrames\<close> for an invalid key.\<close>

definition isInvalidKeyError :: "string \<Rightarrow> bool" where
  "isInvalidKeyError errorString =
     (includesStr errorString ''403'' \<or> includesStr errorString ''API_KEY_INVALID'')"

text \<open>The three ways a styling call can end, as \<open>styleFrames\<close> tells them apart: a
  rejection that passes the invalid-key test, a returned image part, and everything
  else (no image part, or any other rejection), for which the original is kept.\<close>

definition signalsInvalidKey :: "ApiOutcome \<Rightarrow> bool" where
  "signalsInvalidKey outcome =
     (case outcome of
        Failed errorString \<Rightarrow> isInvalidKeyError errorString
      | Responded part \<Rightarrow> False)"

definition returnsImage :: "ApiOutcome \<Rightarrow> bool" where
  "returnsImage outcome =
     (case outcome of
        Responded (Some part) \<Rightarrow> True
      | Responded None \<Rightarrow> False
      | Failed errorString \<Rightarrow> False)"

text \<open>The object pushed for one frame when the loop goes on: \<open>{ src: ... }\<close> from
  the returned part, or \<open>{ src: frame.src }\<close> as the fallback.\<close>

definition styledResult :: "ApiOutcome \<Rightarrow> Frame \<Rightarrow> Frame" where
  "styledResult outcome frame =
     (case outcome of
        Responded (Some (mime, payload)) \<Rightarrow>
          \<lparr>data = None, mimeType = None, src = ''data:'' @ mime @ '';base64,'' @ payload\<rparr>
      | Responded None \<Rightarrow> \<lparr>data = None, mimeType = None, src = src frame\<rparr>
      | Failed errorString \<Rightarrow> \<lparr>data = None, mimeType = None, src = src frame\<rparr>)"

text \<open>
  The loop of \<open>styleFrames\<close> from index \<open>i\<close> on; the list argument holds the frames
  from \<open>i\<close> to the end. It returns what was thrown, if anything, the local array
  \<open>styledResults\<close> as it is when the loop is left, and the world.
\<close>

fun styleFramesLoop ::
  "Env \<Rightarrow> string \<Rightarrow> string \<Rightarrow> nat \<Rightarrow> nat \<Rightarrow> Frame list \<Rightarrow> Frame list \<Rightarrow> World
   \<Rightarrow> exn option \<times> Frame list \<times> World" where
  "styleFramesLoop env prompt msgPrefix n i [] styledResults w = (None, styledResults, w)"
| "styleFramesLoop env prompt msgPrefix n i (frame # rest) styledResults w =
     (let w1 = setLoading True
                 (msgPrefix @ '' '' @ showNat (i + 1) @ '' of '' @ showNat n @ ''...'') w;
          outcome = generateContent env (apiCalls w1);
          w2 = requested frame prompt w1
      in case outcome of
           Failed errorString \<Rightarrow>
             if isInvalidKeyError errorString then
               (Some (Error ''Invalid API Key''), styledResults,
                emit ShowApiKeyModal (emit RemoveStoredKey
                  (showError ''API Key Invalid. Please check your settings.'' w2)))
             else styleFramesLoop env prompt msgPrefix n (i + 1) rest
                    (styledResults @ [styledResult outcome frame]) w2
         | Responded part \<Rightarrow>
             styleFramesLoop env prompt msgPrefix n (i + 1) rest
               (styledResults @ [styledResult outcome frame]) w2)"

definition styleFrames ::
  "Env \<Rightarrow> Frame list \<Rightarrow> string \<Rightarrow> World \<Rightarrow> (exn + Frame list) \<times> World" where
  "styleFrames env framesToStyle loadingMessagePrefix w =
     (let prompt = ''Transform this image into a '' @ styleSelectValue env @ '' style.''
      in case styleFramesLoop env prompt loadingMessagePrefix (length framesToStyle) 0
                framesToStyle [] w of
           (Some error, styledResults, w') \<Rightarrow> (Inl error, w')
         | (None, styledResults, w') \<Rightarrow> (Inr styledResults, w'))"

text \<open>
  The effect layer. \<open>generateStylizedFrame\<close> throws when the response has no image
  part and lets a rejection of the call through; \<open>styleFramesBatch\<close> catches
  whatever is thrown and pushes the original frame.
\<close>

datatype StyleFailure = NoImageReturned | CallRejected string

definition generateStylizedFrame ::
  "Env \<Rightarrow> Frame \<Rightarrow> string \<Rightarrow> World \<Rightarrow> (StyleFailure + Frame) \<times> World" where
  "generateStylizedFrame env frame prompt w =
     (case generateContent env (apiCalls w) of
        Failed errorString \<Rightarrow> (Inl (CallRejected errorString), requested frame prompt w)
      | Responded None \<Rightarrow> (Inl NoImageReturned, requested frame prompt w)
      | Responded (Some (mime, payload)) \<Rightarrow>
          (Inr (createFrame payload mime), requested frame prompt w))"

fun styleFramesBatchLoop ::
  "Env \<Rightarrow> string \<Rightarrow> nat \<Rightarrow> nat \<Rightarrow> Frame list \<Rightarrow> (bool \<times> Frame) list \<Rightarrow> World
   \<Rightarrow> (bool \<times> Frame) list \<times> World" where
  "styleFramesBatchLoop env prompt n i [] results w = (results, w)"
| "styleFramesBatchLoop env prompt n i (frame # rest) results w =
     (let w1 = emit (OnProgress (i + 1) n) w
      in case generateStylizedFrame env frame prompt w1 of
           (Inr styledFrame, w2) \<Rightarrow>
             styleFramesBatchLoop env prompt n (i + 1) rest
               (results @ [(True, styledFrame)]) w2
         | (Inl error, w2) \<Rightarrow>
             styleFramesBatchLoop env prompt n (i + 1) rest
               (results @ [(True, frame)]) w2)"

definition styleFramesBatch ::
  "Env \<Rightarrow> Frame list \<Rightarrow> string \<Rightarrow> World \<Rightarrow> Frame list \<times> World" where
  "styleFramesBatch env frames style w =
     (case styleFramesBatchLoop env (createStylePrompt style) (length frames) 0 frames [] w of
        (results, w') \<Rightarrow> (map snd (filter fst results), w'))"


section \<open>Video assembly\<close>

text \<open>
  The page script's \<open>createVideoFromFrames\<close>. The loop over \<open>videoOptions\<close>
  takes the first option that is reported as supported and for which the recorder
  is constructed; a constructor that throws is caught and the loop goes on.
\<close>

definition videoOptions :: "CodecOption list" where
  "videoOptions =
     [\<lparr>mimeType = ''video/webm; codecs=vp9'', extension = ''webm''\<rparr>,
      \<lparr>mimeType = ''video/webm; codecs=vp8'', extension = ''webm''\<rparr>,
      \<lparr>mimeType = ''video/mp4'', extension = ''mp4''\<rparr>,
      \<lparr>mimeType = ''video/webm'', extension = ''webm''\<rparr>]"

fun selectRecorder :: "Env \<Rightarrow> CodecOption list \<Rightarrow> CodecOption option" where
  "selectRecorder env [] = None"
| "selectRecorder env (options # rest) =
     (if isTypeSupported env (CodecOption.mimeType options) then
        (if recorderConstructs env (CodecOption.mimeType options) then Some options
         else selectRecorder env rest)
      else selectRecorder env rest)"

text \<open>The drawing loop: one canvas operation for each frame, in order; a frame whose
  image fails to load is painted black. The wait between two frames is wall-clock
  time and leaves no mark here.\<close>

fun drawFrames :: "Env \<Rightarrow> Frame list \<Rightarrow> World \<Rightarrow> World" where
  "drawFrames env [] w = w"
| "drawFrames env (frame # rest) w =
     (if imageLoads env (src frame) then drawFrames env rest (emit (DrawImage (src frame)) w)
      else drawFrames env rest (emit FillBlack w))"

text \<open>What rejects a promise: something thrown, or the event object that an
  \<open>onerror\<close> handler passes on (it has no message). The promise settles once: an
  error event of the recorder rejects it before \<open>onstop\<close> can resolve it.\<close>

datatype failure = Thrown exn | ErrorEvent

definition createVideoFromFrames ::
  "Env \<Rightarrow> Frame list \<Rightarrow> nat \<Rightarrow> World \<Rightarrow> (failure + string \<times> string) \<times> World" where
  "createVideoFromFrames env frames fps w =
     (case frames of
        [] \<Rightarrow> (Inl (Thrown (Error ''No frames to create video from.'')), w)
      | first # _ \<Rightarrow>
          if \<not> imageLoads env (src first) then
            (Inl (Thrown (Error ''Could not load first frame to get video dimensions.'')), w)
          else
            (case selectRecorder env videoOptions of
               None \<Rightarrow>
                 (Inl (Thrown (Error
                    ''MediaRecorder could not be initialized. Cannot create video.'')), w)
             | Some selectedOptions \<Rightarrow>
                 (let w1 = emit (RecorderStart (CodecOption.mimeType selectedOptions) fps) w;
                      w2 = drawFrames env frames w1;
                      w3 = emit RecorderStop w2
                  in if recorderErrors env then (Inl ErrorEvent, w3)
                     else (Inr (createObjectURL env, extension selectedOptions), w3))))"

text \<open>The effect layer's assembler asks which of the four types are supported, lets
  \<open>selectBestCodec\<close> choose, and gives up when the recorder for that one choice
  cannot be constructed.\<close>

definition createVideoFromFramesIO ::
  "Env \<Rightarrow> Frame list \<Rightarrow> nat \<Rightarrow> World \<Rightarrow> (failure + string \<times> string) \<times> World" where
  "createVideoFromFramesIO env frames fps w =
     (case frames of
        [] \<Rightarrow> (Inl (Thrown (Error ''No frames to create video'')), w)
      | first # _ \<Rightarrow>
          if \<not> imageLoads env (src first) then
            (Inl (Thrown (Error ''Failed to load first frame'')), w)
          else
            (let supportedTypes =
                   filter (isTypeSupported env)
                     [''video/webm; codecs=vp9'', ''video/webm; codecs=vp8'',
                      ''video/mp4'', ''video/webm'']
             in case selectBestCodec supportedTypes of
                  None \<Rightarrow> (Inl (Thrown (Error ''No supported video codec found'')), w)
                | Some codec \<Rightarrow>
                    if \<not> recorderConstructs env (CodecOption.mimeType codec) then
                      (Inl (Thrown (Error ''Failed to initialize MediaRecorder'')), w)
                    else
                      (let w1 = emit (RecorderStart (CodecOption.mimeType codec) fps) w;
                           w2 = drawFrames env frames w1;
                           w3 = emit RecorderStop w2
                       in if recorderErrors env then (Inl ErrorEvent, w3)
                          else (Inr (createObjectURL env, extension codec), w3))))"


section \<open>Progressive video generation\<close>

text \<open>\<open>createLowResFrames\<close>: \<open>Promise.all\<close> rejects as soon as one image fails to
  load, with the event of \<open>img.onerror\<close>; otherwise the frames come in input order.\<close>

definition lowResFrame :: "Env \<Rightarrow> Frame \<Rightarrow> Frame" where
  "lowResFrame env frame =
     (let dataUrl = toDataURL env (src frame)
      in \<lparr>data = (case split CHR '','' dataUrl of _ # d # _ \<Rightarrow> Some d | _ \<Rightarrow> None),
          mimeType = Some ''image/jpeg'',
          src = dataUrl\<rparr>)"

definition createLowResFrames :: "Env \<Rightarrow> Frame list \<Rightarrow> failure + Frame list" where
  "createLowResFrames env highResFrames =
     (if list_all (\<lambda>frame. imageLoads env (src frame)) highResFrames
      then Inr (map (lowResFrame env) highResFrames)
      else Inl ErrorEvent)"

text \<open>How a run of \<open>processVideoWithProgressivePreview\<close> ends: by one of the
  returns of the two \<open>catch\<close> blocks, or after the final display.\<close>

datatype Outcome =
    InvalidKeyInPreview
  | PreviewFailed failure
  | InvalidKeyInFinal
  | FinalFailed failure
  | VideoShown string string

text \<open>\<open>error.message === "Invalid API Key"\<close>: an event object has no message.\<close>

definition isInvalidKeyMessage :: "failure \<Rightarrow> bool" where
  "isInvalidKeyMessage error = (error = Thrown (Error ''Invalid API Key''))"

definition previewCatch :: "failure \<Rightarrow> World \<Rightarrow> Outcome \<times> World" where
  "previewCatch error w =
     (if isInvalidKeyMessage error then (InvalidKeyInPreview, w)
      else (PreviewFailed error,
            setLoading False ''Loading...''
              (showError ''Could not generate a preview. Please try again.'' w)))"

definition finalCatch :: "failure \<Rightarrow> World \<Rightarrow> Outcome \<times> World" where
  "finalCatch error w =
     (if isInvalidKeyMessage error then (InvalidKeyInFinal, setLoading False ''Loading...'' w)
      else (FinalFailed error,
            setLoading False ''Loading...''
              (showError ''Failed to generate final video, but the preview is available.'' w)))"

definition finalPass :: "Env \<Rightarrow> Frame list \<Rightarrow> World \<Rightarrow> Outcome \<times> World" where
  "finalPass env capturedFrames w =
     (case styleFrames env capturedFrames ''Styling high-quality frame'' w of
        (Inl error, w1) \<Rightarrow> finalCatch (Thrown error) w1
      | (Inr styledHighResFrames, w1) \<Rightarrow>
          (let w2 = (if length styledHighResFrames \<noteq> length capturedFrames then
                       showError (''Could not stylize all high-quality frames (''
                         @ showNat (length styledHighResFrames) @ ''/''
                         @ showNat (length capturedFrames)
                         @ '' succeeded). Video will be generated with available frames.'') w1
                     else w1);
               w3 = setLoading True ''Encoding final video...'' w2
           in case createVideoFromFrames env styledHighResFrames 10 w3 of
                (Inl error, w4) \<Rightarrow> finalCatch error w4
              | (Inr (videoBlobUrl, ext), w4) \<Rightarrow>
                  (VideoShown videoBlobUrl ext,
                   setLoading False ''Loading...''
                     ((emit ShowDownloadButton (emit (ShowVideo videoBlobUrl) w4))
                        \<lparr>downloadableUrl := Some videoBlobUrl,
                         downloadableFilename :=
                           ''stylized-video-'' @ showNat (dateNow env) @ ''.'' @ ext\<rparr>))))"

definition processVideoWithProgressivePreview ::
  "Env \<Rightarrow> Frame list \<Rightarrow> World \<Rightarrow> Outcome \<times> World" where
  "processVideoWithProgressivePreview env capturedFrames w =
     (let w1 = setLoading True ''Generating low-quality preview...'' w
      in case createLowResFrames env capturedFrames of
           Inl error \<Rightarrow> previewCatch error w1
         | Inr lowResFrames \<Rightarrow>
             (case styleFrames env lowResFrames ''Styling preview frame'' w1 of
                (Inl error, w2) \<Rightarrow> previewCatch (Thrown error) w2
              | (Inr styledLowResFrames, w2) \<Rightarrow>
                  if length styledLowResFrames = 0 then
                    previewCatch
                      (Thrown (Error ''Preview generation failed. No frames were returned.'')) w2
                  else
                    finalPass env capturedFrames
                      (emit StartOutputAnimation (w2\<lparr>stylizedFrames := styledLowResFrames\<rparr>))))"


section \<open>Credential check at start-up\<close>

text \<open>The application's \<open>initializeAI\<close>: \<open>newGoogleGenAI\<close> tells whether the
  constructor returns for that key; the client is known by the key it was built with.\<close>

record AppState =
  ai :: "string option"
  errorMessage :: "string option"
  modalVisible :: bool

definition renderError :: "string \<Rightarrow> AppState \<Rightarrow> AppState" where
  "renderError message state = state\<lparr>errorMessage := Some (''Error: '' @ message)\<rparr>"

definition initializeAI :: "(string \<Rightarrow> bool) \<Rightarrow> jsval \<Rightarrow> AppState \<Rightarrow> AppState" where
  "initializeAI newGoogleGenAI key state =
     (if \<not> isValidApiKey key then renderError ''Invalid API Key format'' state
      else (case key of
              JSString apiKey \<Rightarrow>
                (if newGoogleGenAI apiKey then state\<lparr>ai := Some apiKey, modalVisible := False\<rparr>
                 else renderError ''Invalid API Key'' state)
            | _ \<Rightarrow> state))"


section \<open>Predicates and sample inputs of the statements\<close>

text \<open>What \<open>styleFramesBatch\<close> pushes for one frame: the frame built by
  \<open>createFrame\<close> from the returned part, or the original.\<close>

definition batchResult :: "ApiOutcome \<Rightarrow> Frame \<Rightarrow> Frame" where
  "batchResult outcome frame =
     (case outcome of
        Responded (Some (mime, payload)) \<Rightarrow> createFrame payload mime
      | Responded None \<Rightarrow> frame
      | Failed errorString \<Rightarrow> frame)"

text \<open>The invariant of a frame as its three declared fields state it. A field that
  the object does not have reads as \<open>undefined\<close>, which a template literal renders
  as the text \<open>undefined\<close>.\<close>

definition templateText :: "string option \<Rightarrow> string" where
  "templateText field = (case field of None \<Rightarrow> ''undefined'' | Some text \<Rightarrow> text)"

definition srcMatchesFields :: "Frame \<Rightarrow> bool" where
  "srcMatchesFields frame =
     (src frame = ''data:'' @ templateText (Frame.mimeType frame) @ '';base64,''
                  @ templateText (data frame))"

text \<open>The page script's globals when it starts, and an environment in which every
  styling call answers without an image part, every image loads, \<open>video/mp4\<close> and
  \<open>video/webm\<close> are reported as supported, and the recorder can be constructed for
  \<open>video/webm\<close> only.\<close>

definition initialWorld :: World where
  "initialWorld =
     \<lparr>apiCalls = 0, trace = [], stylizedFrames = [], downloadableUrl = None,
      downloadableFilename = []\<rparr>"

definition sampleEnv :: Env where
  "sampleEnv =
     \<lparr>generateContent = (\<lambda>k. Responded None),
      styleSelectValue = ''Pencil Sketch'',
      imageLoads = (\<lambda>source. True),
      toDataURL = (\<lambda>source. ''data:image/jpeg;base64,AAAA''),
      isTypeSupported = (\<lambda>type. type = ''video/mp4'' \<or> type = ''video/webm''),
      recorderConstructs = (\<lambda>type. type = ''video/webm''),
      recorderErrors = False,
      createObjectURL = ''blob:video'',
      dateNow = 0\<rparr>"

definition sampleFrame :: Frame where
  "sampleFrame = createFrame ''QUJD'' ''image/png''"

definition otherFrame :: Frame where
  "otherFrame = createFrame ''AAAA'' ''image/png''"


section \<open>Video sampling\<close>

text \<open>
  A number of the script: not-a-number, the two infinities, or a finite value.
  Finite values are taken as reals and their products and quotients as exact;
  rounding to a double and the sign of zero are outside the model. The special
  values multiply, divide and compare as the language defines: zero times an
  infinity and an infinity over an infinity are not-a-number, a non-zero finite
  value over zero is an infinity, and every comparison with not-a-number is false.
\<close>

datatype number = NaN | NegInfinity | Finite real | PosInfinity






text \<open>
  The video element as the sampler meets it. \<open>ready\<close>: it has a source and its
  ready state is at least \<open>HAVE_CURRENT_DATA\<close>. \<open>seeked targets\<close>: the position
  the video shows when the first \<open>seeked\<close> event fires after \<open>currentTime\<close> was
  set to these targets, one after the other, in one synchronous run; \<open>None\<close> when
  no such event fires. \<open>drawnDataUrl position\<close>: what \<open>canvas.toDataURL\<close> gives
  once the video showing that position is drawn. Setting \<open>currentTime\<close> to a
  value that is not finite throws a TypeError.
\<close>

record Video =
  ready :: bool
  duration :: number
  frameSliderValue :: nat
  seeked :: "number list \<Rightarrow> number option"
  drawnDataUrl :: "number \<Rightarrow> string"










section \<open>Properties of the data-URL codec\<close>

lemma split_never_empty: "split sep s \<noteq> []"
  by (induction s) (auto split: list.splits)

lemma split_no_separator: "sep \<notin> set s \<Longrightarrow> split sep s = [s]"
  by (induction s) auto

lemma split_at_first_separator:
  "sep \<notin> set xs \<Longrightarrow> split sep (xs @ sep # ys) = xs # split sep ys"
  by (induction xs) auto

lemma split_two_pieces:
  "sep \<in> set s \<Longrightarrow> \<exists>first second others. split sep s = first # second # others"
proof (induction s)
  case Nil
  then show ?case by simp
next
  case (Cons c cs)
  show ?case
  proof (cases "c = sep")
    case True
    then show ?thesis
      using split_never_empty [of sep cs] by (cases "split sep cs") auto
  next
    case False
    then have "sep \<in> set cs" using Cons.prems by simp
    then obtain first second others where "split sep cs = first # second # others"
      using Cons.IH by blast
    then show ?thesis using False by simp
  qed
qed

lemma split_first_piece:
  "split sep s = first # others \<Longrightarrow> set first \<subseteq> set s"
proof (induction s arbitrary: first others)
  case Nil
  then show ?case by simp
next
  case (Cons c cs)
  then show ?case
    by (cases "split sep cs") (auto split: if_splits)
qed

lemma lazyUntilSemicolon_first:
  "CHR '';'' \<notin> set g \<Longrightarrow> \<forall>c \<in> set g. \<not> isLineTerminator c \<Longrightarrow>
   lazyUntilSemicolon (g @ CHR '';'' # rest) = Some g"
  by (induction g) auto

lemma lazyUntilSemicolon_none: "CHR '';'' \<notin> set s \<Longrightarrow> lazyUntilSemicolon s = None"
  by (induction s) auto

lemma matchMime_none: "CHR '';'' \<notin> set s \<Longrightarrow> matchMime s = None"
  by (induction s) (auto simp: lazyUntilSemicolon_none)

lemma matchMime_data_header:
  assumes "CHR '';'' \<notin> set m" and "\<forall>c \<in> set m. \<not> isLineTerminator c"
  shows "matchMime (''data:'' @ m @ '';base64'') = Some m"
  using lazyUntilSemicolon_first [OF assms, of "''base64''"] by simp

text \<open>
  C4, as amended. Decoding an encoded pair gives the pair back whenever the type is
  not empty and holds no comma, no semicolon and no line terminator, and the payload
  holds no comma (as no base64 payload does).
\<close>

theorem parseDataUrl_createDataUrl:
  assumes "m \<noteq> []" and "CHR '','' \<notin> set m" and "CHR '';'' \<notin> set m"
    and "\<forall>c \<in> set m. \<not> isLineTerminator c" and "CHR '','' \<notin> set d"
  shows "parseDataUrl (JSString (createDataUrl m d)) = Inr (m, Some d)"
proof -
  have header: "CHR '','' \<notin> set (''data:'' @ m @ '';base64'')"
    using assms(2) by simp
  have "createDataUrl m d = (''data:'' @ m @ '';base64'') @ CHR '','' # d"
    by (simp add: createDataUrl_def)
  then have "split CHR '','' (createDataUrl m d) = [''data:'' @ m @ '';base64'', d]"
    using split_at_first_separator [OF header, of d] split_no_separator [OF assms(5)] by simp
  then show ?thesis
    using matchMime_data_header [OF assms(3,4)] assms(1)
    by (simp add: parseDataUrl_def)
qed

theorem parseDataUrl_createDataUrl_witness:
  "parseDataUrl (JSString (createDataUrl ''image/png'' ''iVBORw0KGgo='')) =
     Inr (''image/png'', Some ''iVBORw0KGgo='')"
  using parseDataUrl_createDataUrl [of "''image/png''" "''iVBORw0KGgo=''"]
  by (simp add: isLineTerminator_def)

text \<open>
  C4 as stated fails for a type with a parameter, such as the first entry of the
  codec list: the lazy group stops at the first semicolon.
\<close>

theorem parseDataUrl_createDataUrl_counterexample:
  "parseDataUrl (JSString (createDataUrl ''video/webm; codecs=vp9'' ''QUJD'')) =
     Inr (''video/webm'', Some ''QUJD'')
   \<and> parseDataUrl (JSString (createDataUrl ''video/webm; codecs=vp9'' ''QUJD'')) \<noteq>
     Inr (''video/webm; codecs=vp9'', Some ''QUJD'')"
  by (simp add: parseDataUrl_def createDataUrl_def isLineTerminator_def)

text \<open>
  C5, as amended. On a string \<open>parseDataUrl\<close> always returns: the type is the
  default \<open>image/jpeg\<close> when the string has no semicolon, and the payload is
  \<open>undefined\<close> exactly when the string has no comma.
\<close>

theorem parseDataUrl_never_fails:
  "\<exists>mime payload. parseDataUrl (JSString s) = Inr (mime, payload)
     \<and> (CHR '';'' \<notin> set s \<longrightarrow> mime = ''image/jpeg'')
     \<and> (payload = None \<longleftrightarrow> CHR '','' \<notin> set s)"
proof (cases "CHR '','' \<in> set s")
  case True
  then obtain first second others where pieces: "split CHR '','' s = first # second # others"
    using split_two_pieces by blast
  have "CHR '';'' \<notin> set s \<Longrightarrow> matchMime first = None"
    using split_first_piece [OF pieces] matchMime_none by blast
  then show ?thesis
    using True pieces by (auto simp: parseDataUrl_def)
next
  case False
  then have "split CHR '','' s = [s]"
    by (rule split_no_separator)
  then show ?thesis
    using False by (auto simp: parseDataUrl_def matchMime_none)
qed

theorem parseDataUrl_never_fails_witness:
  "parseDataUrl (JSString ''not a data url'') = Inr (''image/jpeg'', None)"
  using parseDataUrl_never_fails [of "''not a data url''"] by auto

text \<open>C5 as stated fails: a string without the structure is decoded, not refused.\<close>

theorem parseDataUrl_malformed_counterexample:
  "parseDataUrl (JSString ''hello'') = Inr (''image/jpeg'', None)"
  by (simp add: parseDataUrl_def)


section \<open>Properties of the credential check\<close>

lemma startsWith_prefix: "startsWith s p = prefix p s"
  by (induction s p rule: startsWith.induct) auto

text \<open>
  C10. \<open>isValidApiKey\<close> holds exactly of the strings longer than ten that start with
  \<open>AIza\<close>, and \<open>initializeAI\<close> leaves the client as it was, and shows the format
  error, for a key that fails it.
\<close>

theorem isValidApiKey_characterised:
  "(isValidApiKey key \<longleftrightarrow> (\<exists>s. key = JSString s \<and> length s > 10 \<and> prefix ''AIza'' s))
   \<and> (\<not> isValidApiKey key \<longrightarrow>
        ai (initializeAI newGoogleGenAI key state) = ai state
        \<and> errorMessage (initializeAI newGoogleGenAI key state) =
            Some ''Error: Invalid API Key format'')"
proof -
  have check: "isValidApiKey key \<longleftrightarrow> (\<exists>s. key = JSString s \<and> length s > 10 \<and> prefix ''AIza'' s)"
  proof (cases key)
    case (JSString s)
    then show ?thesis
      by (simp add: isValidApiKey_def startsWith_prefix)
  qed (simp_all add: isValidApiKey_def)
  have refused: "initializeAI newGoogleGenAI key state = renderError ''Invalid API Key format'' state"
    if "\<not> isValidApiKey key"
    using that by (simp add: initializeAI_def)
  have shown: "ai (renderError message state) = ai state
      \<and> errorMessage (renderError message state) = Some (''Error: '' @ message)" for message
    by (simp add: renderError_def)
  show ?thesis
    using check refused shown [of "''Invalid API Key format''"] by simp
qed

theorem isValidApiKey_characterised_witness:
  "\<not> isValidApiKey (JSString ''sk-0123456789abcdef'')
   \<and> ai (initializeAI (\<lambda>k. True) (JSString ''sk-0123456789abcdef'')
          \<lparr>ai = None, errorMessage = None, modalVisible = True\<rparr>) = None"
  using isValidApiKey_characterised [of "JSString ''sk-0123456789abcdef''" "\<lambda>k. True"
          "\<lparr>ai = None, errorMessage = None, modalVisible = True\<rparr>"]
  by (simp add: isValidApiKey_def)


section \<open>Properties of video assembly\<close>

lemma selectRecorder_find:
  "selectRecorder env options =
     find (\<lambda>option. isTypeSupported env (CodecOption.mimeType option)
                   \<and> recorderConstructs env (CodecOption.mimeType option)) options"
  by (induction options) auto

lemma trace_drawFrames:
  "trace (drawFrames env frames w) =
     trace w @ map (\<lambda>frame. if imageLoads env (src frame) then DrawImage (src frame)
                            else FillBlack) frames"
  by (induction frames arbitrary: w) (auto simp: emit_def)

text \<open>
  C7, as amended. The page script's assembler takes the first option of the ranked
  list (vp9-webm, vp8-webm, mp4, generic webm) that is reported as supported and for
  which the recorder can be constructed; \<open>selectBestCodec\<close> takes the first
  whose type is among the supported ones. When only \<open>video/mp4\<close> is supported and
  its recorder can be constructed, the mp4 option with extension \<open>mp4\<close> is taken.
  When no type is supported, the assembly of a sequence whose first frame loads
  fails with the no-recorder error and changes nothing.
\<close>

theorem codec_selection:
  "(selectRecorder env videoOptions = Some chosen \<longleftrightarrow>
      (\<exists>i<length videoOptions. videoOptions ! i = chosen
          \<and> isTypeSupported env (CodecOption.mimeType chosen)
          \<and> recorderConstructs env (CodecOption.mimeType chosen)
          \<and> (\<forall>j<i. \<not> (isTypeSupported env (CodecOption.mimeType (videoOptions ! j))
                       \<and> recorderConstructs env (CodecOption.mimeType (videoOptions ! j))))))
   \<and> (selectBestCodec supportedTypes = Some chosen \<longleftrightarrow>
      (\<exists>i<length codecOptions. codecOptions ! i = chosen
          \<and> CodecOption.mimeType chosen \<in> set supportedTypes
          \<and> (\<forall>j<i. CodecOption.mimeType (codecOptions ! j) \<notin> set supportedTypes)))
   \<and> map CodecOption.mimeType videoOptions =
       [''video/webm; codecs=vp9'', ''video/webm; codecs=vp8'', ''video/mp4'', ''video/webm'']
   \<and> codecOptions = videoOptions
   \<and> ((\<forall>type. isTypeSupported env type \<longleftrightarrow> type = ''video/mp4'')
          \<and> recorderConstructs env ''video/mp4'' \<longrightarrow>
        selectRecorder env videoOptions =
          Some \<lparr>CodecOption.mimeType = ''video/mp4'', extension = ''mp4''\<rparr>)
   \<and> selectBestCodec [''video/mp4''] =
        Some \<lparr>CodecOption.mimeType = ''video/mp4'', extension = ''mp4''\<rparr>
   \<and> ((\<forall>type. \<not> isTypeSupported env type) \<and> imageLoads env (src first) \<longrightarrow>
        createVideoFromFrames env (first # rest) fps w =
          (Inl (Thrown (Error ''MediaRecorder could not be initialized. Cannot create video.'')),
           w))"
proof -
  have a: "selectRecorder env videoOptions = Some chosen \<longleftrightarrow>
      (\<exists>i<length videoOptions. videoOptions ! i = chosen
          \<and> isTypeSupported env (CodecOption.mimeType chosen)
          \<and> recorderConstructs env (CodecOption.mimeType chosen)
          \<and> (\<forall>j<i. \<not> (isTypeSupported env (CodecOption.mimeType (videoOptions ! j))
                       \<and> recorderConstructs env (CodecOption.mimeType (videoOptions ! j)))))"
    unfolding selectRecorder_find find_Some_iff by blast
  have b: "selectBestCodec supportedTypes = Some chosen \<longleftrightarrow>
      (\<exists>i<length codecOptions. codecOptions ! i = chosen
          \<and> CodecOption.mimeType chosen \<in> set supportedTypes
          \<and> (\<forall>j<i. CodecOption.mimeType (codecOptions ! j) \<notin> set supportedTypes))"
    unfolding selectBestCodec_def find_Some_iff by blast
  have c: "map CodecOption.mimeType videoOptions =
       [''video/webm; codecs=vp9'', ''video/webm; codecs=vp8'', ''video/mp4'', ''video/webm'']"
    by (simp add: videoOptions_def)
  have d: "codecOptions = videoOptions"
    by (simp add: videoOptions_def codecOptions_def)
  have e: "(\<forall>type. isTypeSupported env type \<longleftrightarrow> type = ''video/mp4'')
          \<and> recorderConstructs env ''video/mp4'' \<longrightarrow>
        selectRecorder env videoOptions =
          Some \<lparr>CodecOption.mimeType = ''video/mp4'', extension = ''mp4''\<rparr>"
    by (simp add: videoOptions_def)
  have f: "selectBestCodec [''video/mp4''] =
        Some \<lparr>CodecOption.mimeType = ''video/mp4'', extension = ''mp4''\<rparr>"
    by (simp add: selectBestCodec_def codecOptions_def)
  have g: "(\<forall>type. \<not> isTypeSupported env type) \<and> imageLoads env (src first) \<longrightarrow>
        createVideoFromFrames env (first # rest) fps w =
          (Inl (Thrown (Error ''MediaRecorder could not be initialized. Cannot create video.'')),
           w)"
    by (simp add: createVideoFromFrames_def videoOptions_def)
  show ?thesis
    using a b c d e f g by blast
qed

theorem codec_selection_witness:
  "selectRecorder (sampleEnv\<lparr>isTypeSupported := (\<lambda>type. type = ''video/mp4''),
                             recorderConstructs := (\<lambda>type. True)\<rparr>) videoOptions =
     Some \<lparr>CodecOption.mimeType = ''video/mp4'', extension = ''mp4''\<rparr>
   \<and> fst (createVideoFromFrames (sampleEnv\<lparr>isTypeSupported := (\<lambda>type. False)\<rparr>)
            [sampleFrame] 10 initialWorld) =
       Inl (Thrown (Error ''MediaRecorder could not be initialized. Cannot create video.''))"
  using codec_selection [of "sampleEnv\<lparr>isTypeSupported := (\<lambda>type. type = ''video/mp4''),
                             recorderConstructs := (\<lambda>type. True)\<rparr>"
                            "\<lparr>CodecOption.mimeType = ''video/mp4'', extension = ''mp4''\<rparr>"]
        codec_selection [of "sampleEnv\<lparr>isTypeSupported := (\<lambda>type. False)\<rparr>" _ _ sampleFrame
                            "[]" 10 initialWorld]
  by (simp add: sampleEnv_def)

text \<open>
  C7 as stated fails where a type is reported as supported and the constructor of
  its recorder throws: the loop goes on, and here the generic webm option is taken
  although \<open>video/mp4\<close> comes first among the supported ones.
\<close>

theorem codec_selection_counterexample:
  "isTypeSupported sampleEnv ''video/mp4''
   \<and> \<not> isTypeSupported sampleEnv ''video/webm; codecs=vp9''
   \<and> \<not> isTypeSupported sampleEnv ''video/webm; codecs=vp8''
   \<and> selectRecorder sampleEnv videoOptions =
       Some \<lparr>CodecOption.mimeType = ''video/webm'', extension = ''webm''\<rparr>
   \<and> fst (createVideoFromFrames sampleEnv [sampleFrame] 10 initialWorld) =
       Inr (''blob:video'', ''webm'')"
  by (simp add: sampleEnv_def createVideoFromFrames_def videoOptions_def sampleFrame_def
      createFrame_def Let_def)

text \<open>
  C8. In an assembly that reaches the drawing loop (the sequence is not empty, its
  first frame loads, a recorder is there and raises no error event), a frame after
  the first that fails to load is painted black in its place: one canvas operation
  is made for each of the \<open>n\<close> frames, in order, and the promise resolves with the
  video. This holds of the page script's assembler and of the effect layer's.
\<close>

theorem undecodable_frame_drawn_black:
  assumes "frames \<noteq> []" and "imageLoads env (src (hd frames))"
    and "\<not> recorderErrors env"
    and "0 < k" and "k < length frames" and "\<not> imageLoads env (src (frames ! k))"
  shows "(selectRecorder env videoOptions = Some chosen \<longrightarrow>
           fst (createVideoFromFrames env frames fps w) =
             Inr (createObjectURL env, extension chosen)
           \<and> trace (snd (createVideoFromFrames env frames fps w)) =
               trace w @ [RecorderStart (CodecOption.mimeType chosen) fps]
               @ map (\<lambda>frame. if imageLoads env (src frame) then DrawImage (src frame)
                              else FillBlack) frames
               @ [RecorderStop])
       \<and> (selectBestCodec (filter (isTypeSupported env) (map CodecOption.mimeType codecOptions))
             = Some chosen \<and> recorderConstructs env (CodecOption.mimeType chosen) \<longrightarrow>
           fst (createVideoFromFramesIO env frames fps w) =
             Inr (createObjectURL env, extension chosen)
           \<and> trace (snd (createVideoFromFramesIO env frames fps w)) =
               trace w @ [RecorderStart (CodecOption.mimeType chosen) fps]
               @ map (\<lambda>frame. if imageLoads env (src frame) then DrawImage (src frame)
                              else FillBlack) frames
               @ [RecorderStop])
       \<and> map (\<lambda>frame. if imageLoads env (src frame) then DrawImage (src frame) else FillBlack)
             frames ! k = FillBlack"
proof -
  obtain first rest where fr: "frames = first # rest"
    using assms(1) by (cases frames) auto
  have loads: "imageLoads env (src first)"
    using assms(2) fr by simp
  have types: "map CodecOption.mimeType codecOptions =
      [''video/webm; codecs=vp9'', ''video/webm; codecs=vp8'', ''video/mp4'', ''video/webm'']"
    by (simp add: codecOptions_def)
  have page: "selectRecorder env videoOptions = Some chosen \<Longrightarrow>
      createVideoFromFrames env frames fps w =
        (Inr (createObjectURL env, extension chosen),
         emit RecorderStop (drawFrames env frames
           (emit (RecorderStart (CodecOption.mimeType chosen) fps) w)))"
    using loads assms(3) by (simp add: fr createVideoFromFrames_def Let_def)
  have layer: "selectBestCodec (filter (isTypeSupported env) (map CodecOption.mimeType codecOptions))
        = Some chosen \<Longrightarrow> recorderConstructs env (CodecOption.mimeType chosen) \<Longrightarrow>
      createVideoFromFramesIO env frames fps w =
        (Inr (createObjectURL env, extension chosen),
         emit RecorderStop (drawFrames env frames
           (emit (RecorderStart (CodecOption.mimeType chosen) fps) w)))"
    using loads assms(3) unfolding types by (simp add: fr createVideoFromFramesIO_def Let_def)
  have drawn: "trace (emit RecorderStop (drawFrames env frames
           (emit (RecorderStart (CodecOption.mimeType chosen) fps) w))) =
      trace w @ [RecorderStart (CodecOption.mimeType chosen) fps]
        @ map (\<lambda>frame. if imageLoads env (src frame) then DrawImage (src frame)
                       else FillBlack) frames
        @ [RecorderStop]"
    by (simp add: trace_drawFrames emit_def)
  have black: "map (\<lambda>frame. if imageLoads env (src frame) then DrawImage (src frame)
                       else FillBlack) frames ! k = FillBlack"
    using assms(5,6) by simp
  show ?thesis
    using page layer drawn black by simp
qed

theorem undecodable_frame_drawn_black_witness:
  "fst (createVideoFromFrames
          (sampleEnv\<lparr>imageLoads := (\<lambda>source. source \<noteq> src otherFrame)\<rparr>)
          [sampleFrame, sampleFrame, otherFrame, sampleFrame, sampleFrame] 10 initialWorld) =
     Inr (''blob:video'', ''webm'')
   \<and> trace (snd (createVideoFromFrames
          (sampleEnv\<lparr>imageLoads := (\<lambda>source. source \<noteq> src otherFrame)\<rparr>)
          [sampleFrame, sampleFrame, otherFrame, sampleFrame, sampleFrame] 10 initialWorld)) =
     [RecorderStart ''video/webm'' 10,
      DrawImage (src sampleFrame), DrawImage (src sampleFrame), FillBlack,
      DrawImage (src sampleFrame), DrawImage (src sampleFrame), RecorderStop]"
  using undecodable_frame_drawn_black
          [of "[sampleFrame, sampleFrame, otherFrame, sampleFrame, sampleFrame]"
              "sampleEnv\<lparr>imageLoads := (\<lambda>source. source \<noteq> src otherFrame)\<rparr>"
              2 "\<lparr>CodecOption.mimeType = ''video/webm'', extension = ''webm''\<rparr>"
              10 initialWorld]
  by (simp add: sampleEnv_def sampleFrame_def otherFrame_def createFrame_def createDataUrl_def
      videoOptions_def initialWorld_def)


section \<open>Properties of batch styling\<close>

lemma apiCalls_emit [simp]: "apiCalls (emit e w) = apiCalls w"
  by (simp add: emit_def)

lemma apiCalls_setLoading [simp]: "apiCalls (setLoading b m w) = apiCalls w"
  by (simp add: setLoading_def)

lemma apiCalls_showError [simp]: "apiCalls (showError m w) = apiCalls w"
  by (simp add: showError_def)

lemma apiCalls_requested [simp]: "apiCalls (requested f p w) = Suc (apiCalls w)"
  by (simp add: requested_def)

lemma stylizedFrames_emit [simp]: "stylizedFrames (emit e w) = stylizedFrames w"
  by (simp add: emit_def)

lemma stylizedFrames_setLoading [simp]: "stylizedFrames (setLoading b m w) = stylizedFrames w"
  by (simp add: setLoading_def)

lemma stylizedFrames_showError [simp]: "stylizedFrames (showError m w) = stylizedFrames w"
  by (simp add: showError_def)

lemma stylizedFrames_requested [simp]: "stylizedFrames (requested f p w) = stylizedFrames w"
  by (simp add: requested_def emit_def)

lemma map_upt_shift:
  "map f [0..<Suc m] = f 0 # map (\<lambda>j. f (Suc j)) [0..<m]"
  by (simp add: map_upt_Suc del: upt_Suc)

lemma styleFramesLoop_stylizedFrames:
  "stylizedFrames (snd (snd (styleFramesLoop env prompt pre n i rest styled w))) = stylizedFrames w"
  by (induction rest arbitrary: i styled w) (auto simp: Let_def split: ApiOutcome.splits)

lemma styleFramesLoop_apiCalls_mono:
  "apiCalls w \<le> apiCalls (snd (snd (styleFramesLoop env prompt pre n i rest styled w)))"
proof (induction rest arbitrary: i styled w)
  case Nil
  then show ?case by simp
next
  case (Cons frame rest)
  let ?w2 = "requested frame prompt
     (setLoading True (pre @ '' '' @ showNat (i + 1) @ '' of '' @ showNat n @ ''...'') w)"
  have "apiCalls ?w2 \<le> apiCalls (snd (snd (styleFramesLoop env prompt pre n (i + 1) rest
          (styled @ [styledResult (generateContent env (apiCalls w)) frame]) ?w2)))"
    by (rule Cons.IH)
  then show ?case
    by (auto simp: Let_def split: ApiOutcome.splits)
qed

lemma styleFramesLoop_apiCalls_first:
  "apiCalls w < apiCalls (snd (snd (styleFramesLoop env prompt pre n i (frame # rest) styled w)))"
proof -
  let ?w2 = "requested frame prompt
     (setLoading True (pre @ '' '' @ showNat (i + 1) @ '' of '' @ showNat n @ ''...'') w)"
  have "apiCalls ?w2 \<le> apiCalls (snd (snd (styleFramesLoop env prompt pre n (i + 1) rest
          (styled @ [styledResult (generateContent env (apiCalls w)) frame]) ?w2)))"
    by (rule styleFramesLoop_apiCalls_mono)
  then show ?thesis
    by (auto simp: Let_def split: ApiOutcome.splits)
qed

lemma styleFramesLoop_runs:
  assumes "\<forall>j<length rest. \<not> signalsInvalidKey (generateContent env (apiCalls w + j))"
  shows "styleFramesLoop env prompt pre n i rest styled w =
           (None,
            styled @ map (\<lambda>j. styledResult (generateContent env (apiCalls w + j)) (rest ! j))
                       [0..<length rest],
            snd (snd (styleFramesLoop env prompt pre n i rest styled w)))
         \<and> apiCalls (snd (snd (styleFramesLoop env prompt pre n i rest styled w)))
             = apiCalls w + length rest"
  using assms
proof (induction rest arbitrary: i styled w)
  case Nil
  then show ?case by simp
next
  case (Cons frame rest)
  let ?w1 = "setLoading True (pre @ '' '' @ showNat (i + 1) @ '' of '' @ showNat n @ ''...'') w"
  let ?w2 = "requested frame prompt ?w1"
  let ?o = "generateContent env (apiCalls w)"
  have first: "\<not> signalsInvalidKey ?o"
    using Cons.prems by force
  have later: "\<forall>j<length rest. \<not> signalsInvalidKey (generateContent env (apiCalls ?w2 + j))"
    using Cons.prems by force
  have step: "styleFramesLoop env prompt pre n i (frame # rest) styled w
        = styleFramesLoop env prompt pre n (i + 1) rest (styled @ [styledResult ?o frame]) ?w2"
    using first by (simp add: signalsInvalidKey_def Let_def split: ApiOutcome.splits)
  show ?case
    unfolding step
    using Cons.IH [OF later, of "i + 1" "styled @ [styledResult ?o frame]"]
    by (simp add: map_upt_shift del: upt_Suc)
qed

lemma styleFramesLoop_aborts:
  assumes "k < length rest"
    and "signalsInvalidKey (generateContent env (apiCalls w + k))"
    and "\<forall>j<k. \<not> signalsInvalidKey (generateContent env (apiCalls w + j))"
  shows "fst (styleFramesLoop env prompt pre n i rest styled w) = Some (Error ''Invalid API Key'')
       \<and> fst (snd (styleFramesLoop env prompt pre n i rest styled w))
           = styled @ map (\<lambda>j. styledResult (generateContent env (apiCalls w + j)) (rest ! j)) [0..<k]
       \<and> apiCalls (snd (snd (styleFramesLoop env prompt pre n i rest styled w)))
           = apiCalls w + k + 1"
  using assms
proof (induction rest arbitrary: i styled w k)
  case Nil
  then show ?case by simp
next
  case (Cons frame rest)
  let ?w1 = "setLoading True (pre @ '' '' @ showNat (i + 1) @ '' of '' @ showNat n @ ''...'') w"
  let ?w2 = "requested frame prompt ?w1"
  let ?o = "generateContent env (apiCalls w)"
  show ?case
  proof (cases k)
    case 0
    then have "signalsInvalidKey ?o" using Cons.prems by simp
    then show ?thesis
      using 0 by (simp add: signalsInvalidKey_def Let_def split: ApiOutcome.splits)
  next
    case (Suc k')
    have first: "\<not> signalsInvalidKey ?o"
      using Cons.prems Suc by force
    have step: "styleFramesLoop env prompt pre n i (frame # rest) styled w
        = styleFramesLoop env prompt pre n (i + 1) rest (styled @ [styledResult ?o frame]) ?w2"
      using first by (simp add: signalsInvalidKey_def Let_def split: ApiOutcome.splits)
    have a: "k' < length rest" using Cons.prems Suc by simp
    have b: "signalsInvalidKey (generateContent env (apiCalls ?w2 + k'))"
      using Cons.prems Suc by simp
    have c: "\<forall>j<k'. \<not> signalsInvalidKey (generateContent env (apiCalls ?w2 + j))"
      using Cons.prems Suc by force
    show ?thesis
      unfolding step
      using Cons.IH [OF a b c, of "i + 1" "styled @ [styledResult ?o frame]"] Suc
      by (simp add: map_upt_shift del: upt_Suc)
  qed
qed

lemma styleFrames_runs:
  assumes "\<forall>j<length frames. \<not> signalsInvalidKey (generateContent env (apiCalls w + j))"
  shows "fst (styleFrames env frames pre w) =
           Inr (map (\<lambda>j. styledResult (generateContent env (apiCalls w + j)) (frames ! j))
                  [0..<length frames])
       \<and> apiCalls (snd (styleFrames env frames pre w)) = apiCalls w + length frames
       \<and> stylizedFrames (snd (styleFrames env frames pre w)) = stylizedFrames w"
proof -
  let ?prompt = "''Transform this image into a '' @ styleSelectValue env @ '' style.''"
  let ?loop = "styleFramesLoop env ?prompt pre (length frames) 0 frames [] w"
  obtain thrown styled w' where loop: "?loop = (thrown, styled, w')"
    by (cases ?loop) auto
  have "thrown = None"
    and "styled = map (\<lambda>j. styledResult (generateContent env (apiCalls w + j)) (frames ! j))
                    [0..<length frames]"
    and "apiCalls w' = apiCalls w + length frames"
    using styleFramesLoop_runs [OF assms, of ?prompt pre "length frames" 0 "[]"] loop
    by simp_all
  moreover have "stylizedFrames w' = stylizedFrames w"
    using styleFramesLoop_stylizedFrames [of env ?prompt pre "length frames" 0 frames "[]" w] loop
    by simp
  ultimately show ?thesis
    using loop by (simp add: styleFrames_def Let_def)
qed

lemma styleFrames_aborts:
  assumes "k < length frames"
    and "signalsInvalidKey (generateContent env (apiCalls w + k))"
    and "\<forall>j<k. \<not> signalsInvalidKey (generateContent env (apiCalls w + j))"
  shows "fst (styleFrames env frames pre w) = Inl (Error ''Invalid API Key'')
       \<and> apiCalls (snd (styleFrames env frames pre w)) = apiCalls w + k + 1"
proof -
  let ?prompt = "''Transform this image into a '' @ styleSelectValue env @ '' style.''"
  let ?loop = "styleFramesLoop env ?prompt pre (length frames) 0 frames [] w"
  have "fst ?loop = Some (Error ''Invalid API Key'')"
    and "apiCalls (snd (snd ?loop)) = apiCalls w + k + 1"
    using styleFramesLoop_aborts [OF assms, of ?prompt pre "length frames" 0 "[]"] by simp_all
  then show ?thesis
    by (cases ?loop) (simp add: styleFrames_def Let_def)
qed

lemma generateStylizedFrame_world:
  "snd (generateStylizedFrame env frame prompt w) = requested frame prompt w"
  by (simp add: generateStylizedFrame_def split: ApiOutcome.splits option.splits)

lemma generateStylizedFrame_result:
  "(case fst (generateStylizedFrame env frame prompt w) of
      Inr styledFrame \<Rightarrow> styledFrame
    | Inl error \<Rightarrow> frame) = batchResult (generateContent env (apiCalls w)) frame"
  by (simp add: generateStylizedFrame_def batchResult_def split: ApiOutcome.splits option.splits)

lemma styleFramesBatchLoop_runs:
  "fst (styleFramesBatchLoop env prompt n i rest results w) =
     results @ map (\<lambda>j. (True, batchResult (generateContent env (apiCalls w + j)) (rest ! j)))
                 [0..<length rest]
   \<and> apiCalls (snd (styleFramesBatchLoop env prompt n i rest results w)) =
       apiCalls w + length rest"
proof (induction rest arbitrary: i results w)
  case Nil
  then show ?case by simp
next
  case (Cons frame rest)
  let ?w1 = "emit (OnProgress (i + 1) n) w"
  let ?w2 = "requested frame prompt ?w1"
  let ?pushed = "batchResult (generateContent env (apiCalls w)) frame"
  have step: "styleFramesBatchLoop env prompt n i (frame # rest) results w =
      styleFramesBatchLoop env prompt n (i + 1) rest (results @ [(True, ?pushed)]) ?w2"
    using generateStylizedFrame_world [where env = env and frame = frame and prompt = prompt
          and w = ?w1]
      generateStylizedFrame_result [where env = env and frame = frame and prompt = prompt
          and w = ?w1]
    by (cases "generateStylizedFrame env frame prompt ?w1")
       (auto simp: Let_def split: sum.splits)
  show ?case
    unfolding step
    using Cons.IH [of "i + 1" "results @ [(True, ?pushed)]" ?w2]
    by (simp add: map_upt_shift del: upt_Suc)
qed

lemma styleFramesBatch_runs:
  "fst (styleFramesBatch env frames style w) =
     map (\<lambda>j. batchResult (generateContent env (apiCalls w + j)) (frames ! j)) [0..<length frames]
   \<and> apiCalls (snd (styleFramesBatch env frames style w)) = apiCalls w + length frames"
proof -
  let ?loop = "styleFramesBatchLoop env (createStylePrompt style) (length frames) 0 frames [] w"
  obtain results w' where loop: "?loop = (results, w')"
    by (cases ?loop) auto
  have "results = map (\<lambda>j. (True, batchResult (generateContent env (apiCalls w + j)) (frames ! j)))
                    [0..<length frames]"
    and "apiCalls w' = apiCalls w + length frames"
    using styleFramesBatchLoop_runs [of env "createStylePrompt style" "length frames" 0 frames "[]" w]
      loop by simp_all
  then show ?thesis
    using loop by (simp add: styleFramesBatch_def comp_def)
qed

text \<open>
  C3, as amended. When no call of the batch is rejected with a text that holds
  \<open>403\<close> or \<open>API_KEY_INVALID\<close> (the test by which \<open>styleFrames\<close> takes a
  rejection for an invalid key), \<open>styleFrames\<close> returns as many results as there
  were frames, and the result at the position of a frame whose styling gave no image
  is a new object that has the source of the original frame at that position and
  nothing else. \<open>styleFramesBatch\<close> returns as many frames as it was given
  whatever the calls do, with the original frame itself at each such position.
\<close>

theorem batch_keeps_length:
  "((\<forall>j<length frames. \<not> signalsInvalidKey (generateContent env (apiCalls w + j))) \<longrightarrow>
      (\<exists>styled. fst (styleFrames env frames pre w) = Inr styled
         \<and> length styled = length frames
         \<and> (\<forall>i<length frames. \<not> returnsImage (generateContent env (apiCalls w + i)) \<longrightarrow>
               styled ! i = \<lparr>data = None, mimeType = None, src = src (frames ! i)\<rparr>
               \<and> src (styled ! i) = src (frames ! i))))
   \<and> length (fst (styleFramesBatch env frames style w)) = length frames
   \<and> (\<forall>i<length frames. \<not> returnsImage (generateContent env (apiCalls w + i)) \<longrightarrow>
         fst (styleFramesBatch env frames style w) ! i = frames ! i)"
proof -
  have fallback: "\<not> returnsImage outcome \<Longrightarrow>
      styledResult outcome frame = \<lparr>data = None, mimeType = None, src = src frame\<rparr>
      \<and> batchResult outcome frame = frame"
    for outcome frame
    by (auto simp: returnsImage_def styledResult_def batchResult_def
        split: ApiOutcome.splits option.splits)
  have page: "(\<forall>j<length frames. \<not> signalsInvalidKey (generateContent env (apiCalls w + j))) \<longrightarrow>
      (\<exists>styled. fst (styleFrames env frames pre w) = Inr styled
         \<and> length styled = length frames
         \<and> (\<forall>i<length frames. \<not> returnsImage (generateContent env (apiCalls w + i)) \<longrightarrow>
               styled ! i = \<lparr>data = None, mimeType = None, src = src (frames ! i)\<rparr>
               \<and> src (styled ! i) = src (frames ! i)))"
    using styleFrames_runs [of frames env w pre] fallback by simp
  have layer: "length (fst (styleFramesBatch env frames style w)) = length frames
   \<and> (\<forall>i<length frames. \<not> returnsImage (generateContent env (apiCalls w + i)) \<longrightarrow>
         fst (styleFramesBatch env frames style w) ! i = frames ! i)"
    using styleFramesBatch_runs [of env frames style w] fallback by simp
  show ?thesis
    using page layer by blast
qed

theorem batch_keeps_length_witness:
  "fst (styleFrames
          (sampleEnv\<lparr>generateContent :=
             (\<lambda>k. if k = 1 then Failed ''TypeError: Failed to fetch''
                   else Responded (Some (''image/png'', ''U1RZTEVE'')))\<rparr>)
          [sampleFrame, otherFrame, sampleFrame] ''Styling frame'' initialWorld) =
     Inr [\<lparr>data = None, mimeType = None, src = ''data:image/png;base64,U1RZTEVE''\<rparr>,
          \<lparr>data = None, mimeType = None, src = src otherFrame\<rparr>,
          \<lparr>data = None, mimeType = None, src = ''data:image/png;base64,U1RZTEVE''\<rparr>]
   \<and> length (fst (styleFramesBatch
          (sampleEnv\<lparr>generateContent :=
             (\<lambda>k. if k = 1 then Failed ''TypeError: Failed to fetch''
                   else Responded (Some (''image/png'', ''U1RZTEVE'')))\<rparr>)
          [sampleFrame, otherFrame, sampleFrame] ''Pencil Sketch'' initialWorld)) = 3
   \<and> fst (styleFramesBatch
          (sampleEnv\<lparr>generateContent :=
             (\<lambda>k. if k = 1 then Failed ''TypeError: Failed to fetch''
                   else Responded (Some (''image/png'', ''U1RZTEVE'')))\<rparr>)
          [sampleFrame, otherFrame, sampleFrame] ''Pencil Sketch'' initialWorld) ! 1 = otherFrame"
  using batch_keeps_length
          [of "[sampleFrame, otherFrame, sampleFrame]"
              "sampleEnv\<lparr>generateContent :=
                 (\<lambda>k. if k = 1 then Failed ''TypeError: Failed to fetch''
                       else Responded (Some (''image/png'', ''U1RZTEVE'')))\<rparr>"
              initialWorld "''Styling frame''" "''Pencil Sketch''"]
  by (simp add: sampleEnv_def styleFrames_def styledResult_def Let_def signalsInvalidKey_def
      isInvalidKeyError_def returnsImage_def initialWorld_def)

text \<open>
  C3 as stated fails in two ways. A rejection that is no authentication error, a
  rate limit whose text happens to hold \<open>403\<close>, makes \<open>styleFrames\<close> throw and
  return no frame at all. And what \<open>styleFrames\<close> puts in the place of a frame
  that was not styled is not the original frame: its type and payload are dropped.
\<close>

theorem batch_keeps_length_counterexample:
  "\<not> includesStr ''ApiError: 429 Too Many Requests. Please retry in 27.403s.'' ''API_KEY_INVALID''
   \<and> fst (styleFrames
          (sampleEnv\<lparr>generateContent :=
             (\<lambda>k. Failed ''ApiError: 429 Too Many Requests. Please retry in 27.403s.'')\<rparr>)
          [sampleFrame, otherFrame] ''Styling frame'' initialWorld) =
       Inl (Error ''Invalid API Key'')
   \<and> fst (styleFrames sampleEnv [sampleFrame] ''Styling frame'' initialWorld) =
       Inr [\<lparr>data = None, mimeType = None, src = src sampleFrame\<rparr>]
   \<and> \<lparr>data = None, mimeType = None, src = src sampleFrame\<rparr> \<noteq> sampleFrame"
  by (simp add: sampleEnv_def styleFrames_def styledResult_def isInvalidKeyError_def
      sampleFrame_def createFrame_def Let_def)

text \<open>
  C2, at an input where the first of two calls is rejected with an invalid-key error.
  \<open>styleFramesBatch\<close> treats the rejection as any other: it keeps the original
  frame, makes the second call as well and returns both frames. On the same input
  \<open>styleFrames\<close> throws after the first call, as \<open>styleFrames_aborts\<close> shows
  for every position.
\<close>

theorem styleFramesBatch_goes_on_after_invalid_key:
  "signalsInvalidKey
     (generateContent
        (sampleEnv\<lparr>generateContent :=
           (\<lambda>k. if k = 0 then Failed ''ApiError: API_KEY_INVALID''
                 else Responded (Some (''image/png'', ''U1RZTEVE'')))\<rparr>) 0)
   \<and> fst (styleFramesBatch
          (sampleEnv\<lparr>generateContent :=
             (\<lambda>k. if k = 0 then Failed ''ApiError: API_KEY_INVALID''
                   else Responded (Some (''image/png'', ''U1RZTEVE'')))\<rparr>)
          [sampleFrame, otherFrame] ''Pencil Sketch'' initialWorld) =
       [sampleFrame, createFrame ''U1RZTEVE'' ''image/png'']
   \<and> apiCalls (snd (styleFramesBatch
          (sampleEnv\<lparr>generateContent :=
             (\<lambda>k. if k = 0 then Failed ''ApiError: API_KEY_INVALID''
                   else Responded (Some (''image/png'', ''U1RZTEVE'')))\<rparr>)
          [sampleFrame, otherFrame] ''Pencil Sketch'' initialWorld)) = 2
   \<and> fst (styleFrames
          (sampleEnv\<lparr>generateContent :=
             (\<lambda>k. if k = 0 then Failed ''ApiError: API_KEY_INVALID''
                   else Responded (Some (''image/png'', ''U1RZTEVE'')))\<rparr>)
          [sampleFrame, otherFrame] ''Styling frame'' initialWorld) =
       Inl (Error ''Invalid API Key'')
   \<and> apiCalls (snd (styleFrames
          (sampleEnv\<lparr>generateContent :=
             (\<lambda>k. if k = 0 then Failed ''ApiError: API_KEY_INVALID''
                   else Responded (Some (''image/png'', ''U1RZTEVE'')))\<rparr>)
          [sampleFrame, otherFrame] ''Styling frame'' initialWorld)) = 1"
  by (simp add: sampleEnv_def signalsInvalidKey_def isInvalidKeyError_def styleFramesBatch_def
      generateStylizedFrame_def styleFrames_def initialWorld_def emit_def requested_def
      setLoading_def showError_def Let_def)

text \<open>
  C9, as amended. A frame built by \<open>createFrame\<close> has the source that its type
  and payload give. The results of \<open>styleFrames\<close> have a source and no other
  field: the data URL of the returned part for a styled frame, the source of the
  original for a fallback. \<open>styleFramesBatch\<close> returns frames whose source fits
  their fields whenever those of its input do.
\<close>

theorem frames_and_their_src:
  "srcMatchesFields (createFrame payload mime)
   \<and> ((\<forall>j<length frames. \<not> signalsInvalidKey (generateContent env (apiCalls w + j))) \<longrightarrow>
        (\<exists>styled. fst (styleFrames env frames pre w) = Inr styled
           \<and> length styled = length frames
           \<and> (\<forall>i<length frames.
                 data (styled ! i) = None \<and> Frame.mimeType (styled ! i) = None
                 \<and> src (styled ! i) =
                     (case generateContent env (apiCalls w + i) of
                        Responded (Some (partMime, partData)) \<Rightarrow> createDataUrl partMime partData
                      | Responded None \<Rightarrow> src (frames ! i)
                      | Failed errorString \<Rightarrow> src (frames ! i)))))
   \<and> ((\<forall>frame \<in> set frames. srcMatchesFields frame) \<longrightarrow>
        (\<forall>frame \<in> set (fst (styleFramesBatch env frames style w)). srcMatchesFields frame))"
proof -
  have built: "srcMatchesFields (createFrame payload mime)" for payload mime
    by (simp add: srcMatchesFields_def createFrame_def createDataUrl_def templateText_def)
  have shape: "data (styledResult outcome frame) = None
      \<and> Frame.mimeType (styledResult outcome frame) = None
      \<and> src (styledResult outcome frame) =
          (case outcome of
             Responded (Some (partMime, partData)) \<Rightarrow> createDataUrl partMime partData
           | Responded None \<Rightarrow> src frame
           | Failed errorString \<Rightarrow> src frame)" for outcome frame
    by (simp add: styledResult_def createDataUrl_def split: ApiOutcome.splits option.splits)
  have page: "(\<forall>j<length frames. \<not> signalsInvalidKey (generateContent env (apiCalls w + j))) \<longrightarrow>
        (\<exists>styled. fst (styleFrames env frames pre w) = Inr styled
           \<and> length styled = length frames
           \<and> (\<forall>i<length frames.
                 data (styled ! i) = None \<and> Frame.mimeType (styled ! i) = None
                 \<and> src (styled ! i) =
                     (case generateContent env (apiCalls w + i) of
                        Responded (Some (partMime, partData)) \<Rightarrow> createDataUrl partMime partData
                      | Responded None \<Rightarrow> src (frames ! i)
                      | Failed errorString \<Rightarrow> src (frames ! i))))"
    using styleFrames_runs [of frames env w pre] shape by simp
  have pushed: "srcMatchesFields frame \<Longrightarrow> srcMatchesFields (batchResult outcome frame)"
    for outcome frame
    by (cases outcome) (auto simp: batchResult_def built split: option.splits)
  have layer: "(\<forall>frame \<in> set frames. srcMatchesFields frame) \<longrightarrow>
        (\<forall>frame \<in> set (fst (styleFramesBatch env frames style w)). srcMatchesFields frame)"
    using styleFramesBatch_runs [of env frames style w] pushed by auto
  show ?thesis
    using built page layer by blast
qed

theorem frames_and_their_src_witness:
  "\<not> signalsInvalidKey (generateContent sampleEnv 0)
   \<and> \<not> signalsInvalidKey (generateContent sampleEnv 1)
   \<and> srcMatchesFields sampleFrame
   \<and> fst (styleFrames sampleEnv [sampleFrame, otherFrame] ''Styling frame'' initialWorld) =
       Inr [\<lparr>data = None, mimeType = None, src = src sampleFrame\<rparr>,
            \<lparr>data = None, mimeType = None, src = src otherFrame\<rparr>]"
proof -
  have quiet: "\<not> signalsInvalidKey (generateContent sampleEnv k)" for k
    by (simp add: sampleEnv_def signalsInvalidKey_def)
  have run: "fst (styleFrames sampleEnv [sampleFrame, otherFrame] ''Styling frame'' initialWorld) =
       Inr [\<lparr>data = None, mimeType = None, src = src sampleFrame\<rparr>,
            \<lparr>data = None, mimeType = None, src = src otherFrame\<rparr>]"
    by (simp add: sampleEnv_def styleFrames_def styledResult_def Let_def)
  show ?thesis
    using frames_and_their_src [of "''QUJD''" "''image/png''" "[sampleFrame, otherFrame]"
            sampleEnv initialWorld "''Styling frame''"] quiet run
    by (simp add: sampleFrame_def)
qed

text \<open>
  C9 as stated fails on a styled result of \<open>styleFrames\<close>: the object has a
  source, and neither the type nor the payload from which it was put together.
\<close>

theorem frames_and_their_src_counterexample:
  "fst (styleFrames
          (sampleEnv\<lparr>generateContent := (\<lambda>k. Responded (Some (''image/png'', ''U1RZTEVE'')))\<rparr>)
          [sampleFrame] ''Styling image'' initialWorld) =
     Inr [\<lparr>data = None, mimeType = None, src = ''data:image/png;base64,U1RZTEVE''\<rparr>]
   \<and> \<not> srcMatchesFields \<lparr>data = None, mimeType = None, src = ''data:image/png;base64,U1RZTEVE''\<rparr>"
  by (simp add: sampleEnv_def styleFrames_def styledResult_def srcMatchesFields_def
      templateText_def Let_def)


section \<open>Properties of progressive video generation\<close>

lemma drawFrames_world:
  "apiCalls (drawFrames env frames w) = apiCalls w
   \<and> stylizedFrames (drawFrames env frames w) = stylizedFrames w"
  by (induction frames arbitrary: w) auto

lemma createVideoFromFrames_world:
  "apiCalls (snd (createVideoFromFrames env frames fps w)) = apiCalls w
   \<and> stylizedFrames (snd (createVideoFromFrames env frames fps w)) = stylizedFrames w"
  by (simp add: createVideoFromFrames_def Let_def drawFrames_world split: list.splits option.splits)

lemma styleFrames_world:
  "stylizedFrames (snd (styleFrames env frames pre w)) = stylizedFrames w
   \<and> (frames \<noteq> [] \<longrightarrow> apiCalls w < apiCalls (snd (styleFrames env frames pre w)))"
proof -
  let ?prompt = "''Transform this image into a '' @ styleSelectValue env @ '' style.''"
  let ?loop = "styleFramesLoop env ?prompt pre (length frames) 0 frames [] w"
  have world: "snd (styleFrames env frames pre w) = snd (snd ?loop)"
    by (cases ?loop) (auto simp: styleFrames_def Let_def split: option.splits)
  have "frames \<noteq> [] \<longrightarrow> apiCalls w < apiCalls (snd (snd ?loop))"
    using styleFramesLoop_apiCalls_first [of w env ?prompt pre "length frames" 0 _ _ "[]"]
    by (cases frames) auto
  then show ?thesis
    using world styleFramesLoop_stylizedFrames [of env ?prompt pre "length frames" 0 frames "[]" w]
    by simp
qed

lemma finalCatch_world:
  "apiCalls (snd (finalCatch error w)) = apiCalls w
   \<and> stylizedFrames (snd (finalCatch error w)) = stylizedFrames w
   \<and> fst (finalCatch error w) \<noteq> InvalidKeyInPreview
   \<and> (\<forall>e. fst (finalCatch error w) \<noteq> PreviewFailed e)"
  by (simp add: finalCatch_def)

lemma finalPass_world:
  assumes "capturedFrames \<noteq> []"
  shows "apiCalls w < apiCalls (snd (finalPass env capturedFrames w))
       \<and> stylizedFrames (snd (finalPass env capturedFrames w)) = stylizedFrames w
       \<and> fst (finalPass env capturedFrames w) \<noteq> InvalidKeyInPreview
       \<and> (\<forall>e. fst (finalPass env capturedFrames w) \<noteq> PreviewFailed e)"
proof -
  obtain result w1 where styled:
    "styleFrames env capturedFrames ''Styling high-quality frame'' w = (result, w1)"
    by (cases "styleFrames env capturedFrames ''Styling high-quality frame'' w") auto
  have w1: "stylizedFrames w1 = stylizedFrames w" "apiCalls w < apiCalls w1"
    using styleFrames_world [of env capturedFrames "''Styling high-quality frame''" w]
      assms styled by simp_all
  show ?thesis
  proof (cases result)
    case (Inl error)
    then show ?thesis
      using styled w1 finalCatch_world [of "Thrown error" w1]
      by (simp add: finalPass_def)
  next
    case (Inr styledHighResFrames)
    let ?w2 = "if length styledHighResFrames \<noteq> length capturedFrames then
                 showError (''Could not stylize all high-quality frames (''
                   @ showNat (length styledHighResFrames) @ ''/''
                   @ showNat (length capturedFrames)
                   @ '' succeeded). Video will be generated with available frames.'') w1
               else w1"
    let ?w3 = "setLoading True ''Encoding final video...'' ?w2"
    have w3: "stylizedFrames ?w3 = stylizedFrames w" "apiCalls w < apiCalls ?w3"
      using w1 by simp_all
    obtain video w4 where assembled:
      "createVideoFromFrames env styledHighResFrames 10 ?w3 = (video, w4)"
      by (cases "createVideoFromFrames env styledHighResFrames 10 ?w3") auto
    have w4: "stylizedFrames w4 = stylizedFrames w" "apiCalls w < apiCalls w4"
      using createVideoFromFrames_world [of env styledHighResFrames 10 ?w3] assembled w3
      by simp_all
    show ?thesis
    proof (cases video)
      case (Inl error)
      then show ?thesis
        using styled Inr assembled w4 finalCatch_world [of error w4]
        by (simp add: finalPass_def Let_def)
    next
      case (Inr shown)
      then show ?thesis
        using styled \<open>result = Inr styledHighResFrames\<close> assembled w4
        by (cases shown) (simp add: finalPass_def Let_def)
    qed
  qed
qed

lemma trace_emit [simp]: "trace (emit e w) = trace w @ [e]"
  by (simp add: emit_def)

lemma trace_setLoading [simp]: "trace (setLoading b m w) = trace w @ [SetLoading b m]"
  by (simp add: setLoading_def)

lemma trace_showError [simp]: "trace (showError m w) = trace w @ [ShowError m]"
  by (simp add: showError_def)

lemma trace_requested [simp]:
  "trace (requested frame prompt w) = trace w @ [Request (data frame) (Frame.mimeType frame) prompt]"
  by (simp add: requested_def emit_def)

lemma styleFramesLoop_keeps_trace:
  "e \<in> set (trace w) \<Longrightarrow>
   e \<in> set (trace (snd (snd (styleFramesLoop env prompt pre n i rest styled w))))"
  by (induction rest arbitrary: i styled w) (auto simp: Let_def split: ApiOutcome.splits)

lemma styleFramesLoop_thrown:
  "fst (styleFramesLoop env prompt pre n i rest styled w) = None
   \<or> fst (styleFramesLoop env prompt pre n i rest styled w) = Some (Error ''Invalid API Key'')"
  by (induction rest arbitrary: i styled w) (auto simp: Let_def split: ApiOutcome.splits)

lemma styleFramesLoop_length:
  "fst (styleFramesLoop env prompt pre n i rest styled w) = None \<Longrightarrow>
   length (fst (snd (styleFramesLoop env prompt pre n i rest styled w))) = length styled + length rest"
  by (induction rest arbitrary: i styled w) (auto simp: Let_def split: ApiOutcome.splits if_splits)

lemma styleFrames_result:
  "(fst (styleFrames env frames pre w) = Inl error \<longrightarrow> error = Error ''Invalid API Key'')
   \<and> (fst (styleFrames env frames pre w) = Inr styled \<longrightarrow> length styled = length frames)"
proof -
  let ?prompt = "''Transform this image into a '' @ styleSelectValue env @ '' style.''"
  let ?loop = "styleFramesLoop env ?prompt pre (length frames) 0 frames [] w"
  obtain thrown results w' where loop: "?loop = (thrown, results, w')"
    by (cases ?loop) auto
  have "thrown = None \<or> thrown = Some (Error ''Invalid API Key'')"
    using styleFramesLoop_thrown [of env ?prompt pre "length frames" 0 frames "[]" w] loop by simp
  moreover have "thrown = None \<Longrightarrow> length results = length frames"
    using styleFramesLoop_length [of env ?prompt pre "length frames" 0 frames "[]" w] loop by simp
  ultimately show ?thesis
    using loop by (auto simp: styleFrames_def Let_def)
qed

lemma styleFrames_keeps_trace:
  "e \<in> set (trace w) \<Longrightarrow> e \<in> set (trace (snd (styleFrames env frames pre w)))"
proof -
  let ?prompt = "''Transform this image into a '' @ styleSelectValue env @ '' style.''"
  let ?loop = "styleFramesLoop env ?prompt pre (length frames) 0 frames [] w"
  assume "e \<in> set (trace w)"
  then have "e \<in> set (trace (snd (snd ?loop)))"
    by (rule styleFramesLoop_keeps_trace)
  moreover have "snd (styleFrames env frames pre w) = snd (snd ?loop)"
    by (cases ?loop) (auto simp: styleFrames_def Let_def split: option.splits)
  ultimately show ?thesis by simp
qed

lemma createVideoFromFrames_keeps_trace:
  "e \<in> set (trace w) \<Longrightarrow> e \<in> set (trace (snd (createVideoFromFrames env frames fps w)))"
  by (simp add: createVideoFromFrames_def Let_def trace_drawFrames split: list.splits option.splits)

lemma finalCatch_keeps_trace:
  "e \<in> set (trace w) \<Longrightarrow> e \<in> set (trace (snd (finalCatch error w)))"
  by (simp add: finalCatch_def)

lemma finalPass_keeps_trace:
  assumes "e \<in> set (trace w)"
  shows "e \<in> set (trace (snd (finalPass env capturedFrames w)))"
proof -
  obtain result w1 where styled:
    "styleFrames env capturedFrames ''Styling high-quality frame'' w = (result, w1)"
    by (cases "styleFrames env capturedFrames ''Styling high-quality frame'' w") auto
  have w1: "e \<in> set (trace w1)"
    using styleFrames_keeps_trace [OF assms, of env capturedFrames "''Styling high-quality frame''"]
      styled by simp
  show ?thesis
  proof (cases result)
    case (Inl error)
    then show ?thesis
      using styled finalCatch_keeps_trace [OF w1, of "Thrown error"] by (simp add: finalPass_def)
  next
    case (Inr styledHighResFrames)
    let ?w2 = "if length styledHighResFrames \<noteq> length capturedFrames then
                 showError (''Could not stylize all high-quality frames (''
                   @ showNat (length styledHighResFrames) @ ''/''
                   @ showNat (length capturedFrames)
                   @ '' succeeded). Video will be generated with available frames.'') w1
               else w1"
    let ?w3 = "setLoading True ''Encoding final video...'' ?w2"
    have w3: "e \<in> set (trace ?w3)"
      using w1 by simp
    obtain video w4 where assembled:
      "createVideoFromFrames env styledHighResFrames 10 ?w3 = (video, w4)"
      by (cases "createVideoFromFrames env styledHighResFrames 10 ?w3") auto
    have w4: "e \<in> set (trace w4)"
      using createVideoFromFrames_keeps_trace [OF w3, of env styledHighResFrames 10] assembled
      by simp
    show ?thesis
    proof (cases video)
      case (Inl error)
      then show ?thesis
        using styled Inr assembled finalCatch_keeps_trace [OF w4, of error]
        by (simp add: finalPass_def Let_def)
    next
      case (Inr shown)
      then show ?thesis
        using styled \<open>result = Inr styledHighResFrames\<close> assembled w4
        by (cases shown) (simp add: finalPass_def Let_def)
    qed
  qed
qed

lemma finalPass_outcome:
  "fst (finalPass env capturedFrames w) \<noteq> InvalidKeyInPreview
   \<and> (\<forall>e. fst (finalPass env capturedFrames w) \<noteq> PreviewFailed e)"
  by (auto simp: finalPass_def finalCatch_def Let_def split: prod.splits sum.splits)

lemma preview_failure_characterised:
  "fst (processVideoWithProgressivePreview env capturedFrames w) = PreviewFailed e \<longleftrightarrow>
     (\<not> list_all (\<lambda>frame. imageLoads env (src frame)) capturedFrames \<and> e = ErrorEvent)
     \<or> (capturedFrames = []
         \<and> e = Thrown (Error ''Preview generation failed. No frames were returned.''))"
proof (cases "list_all (\<lambda>frame. imageLoads env (src frame)) capturedFrames")
  case False
  then have "capturedFrames \<noteq> []"
    by auto
  then show ?thesis
    using False
    by (auto simp: processVideoWithProgressivePreview_def createLowResFrames_def previewCatch_def
        isInvalidKeyMessage_def Let_def)
next
  case True
  let ?w1 = "setLoading True ''Generating low-quality preview...'' w"
  let ?low = "map (lowResFrame env) capturedFrames"
  have low: "createLowResFrames env capturedFrames = Inr ?low"
    using True by (simp add: createLowResFrames_def)
  obtain result w2 where styled: "styleFrames env ?low ''Styling preview frame'' ?w1 = (result, w2)"
    by (cases "styleFrames env ?low ''Styling preview frame'' ?w1") auto
  show ?thesis
  proof (cases result)
    case (Inl error)
    then have key: "error = Error ''Invalid API Key''"
      using styleFrames_result [of env ?low "''Styling preview frame''" ?w1 error] styled by simp
    have "capturedFrames \<noteq> []"
    proof
      assume "capturedFrames = []"
      then have "fst (styleFrames env ?low ''Styling preview frame'' ?w1) = Inr []"
        by (simp add: styleFrames_def)
      then show False
        using styled Inl by simp
    qed
    then show ?thesis
      using True low styled Inl key
      by (simp add: processVideoWithProgressivePreview_def previewCatch_def
          isInvalidKeyMessage_def Let_def)
  next
    case (Inr styledLowResFrames)
    then have len: "length styledLowResFrames = length capturedFrames"
      using styleFrames_result [of env ?low "''Styling preview frame''" ?w1 _ styledLowResFrames]
        styled by simp
    show ?thesis
    proof (cases "capturedFrames = []")
      case empty: True
      then show ?thesis
        using low styled Inr len
        by (auto simp: processVideoWithProgressivePreview_def previewCatch_def
            isInvalidKeyMessage_def Let_def)
    next
      case False
      then show ?thesis
        using True low styled Inr len finalPass_outcome
        by (simp add: processVideoWithProgressivePreview_def Let_def)
    qed
  qed
qed

lemma preview_fallbacks_run:
  assumes "capturedFrames \<noteq> []"
    and "list_all (\<lambda>frame. imageLoads env (src frame)) capturedFrames"
    and "\<forall>j<length capturedFrames.
           \<not> returnsImage (generateContent env (apiCalls w + j))
           \<and> \<not> signalsInvalidKey (generateContent env (apiCalls w + j))"
  shows "processVideoWithProgressivePreview env capturedFrames w =
           finalPass env capturedFrames
             (emit StartOutputAnimation
                ((snd (styleFrames env (map (lowResFrame env) capturedFrames)
                         ''Styling preview frame''
                         (setLoading True ''Generating low-quality preview...'' w)))
                 \<lparr>stylizedFrames :=
                    map (\<lambda>frame. \<lparr>data = None, mimeType = None, src = toDataURL env (src frame)\<rparr>)
                      capturedFrames\<rparr>))
       \<and> apiCalls (snd (styleFrames env (map (lowResFrame env) capturedFrames)
                         ''Styling preview frame''
                         (setLoading True ''Generating low-quality preview...'' w)))
           = apiCalls w + length capturedFrames"
proof -
  let ?w1 = "setLoading True ''Generating low-quality preview...'' w"
  let ?low = "map (lowResFrame env) capturedFrames"
  let ?preview = "map (\<lambda>frame. \<lparr>data = None, mimeType = None, src = toDataURL env (src frame)\<rparr>)
                    capturedFrames"
  have low: "createLowResFrames env capturedFrames = Inr ?low"
    using assms(2) by (simp add: createLowResFrames_def)
  obtain result w2 where styled: "styleFrames env ?low ''Styling preview frame'' ?w1 = (result, w2)"
    by (cases "styleFrames env ?low ''Styling preview frame'' ?w1") auto
  have quiet: "\<forall>j<length ?low. \<not> signalsInvalidKey (generateContent env (apiCalls ?w1 + j))"
    using assms(3) by simp
  have run: "result = Inr (map (\<lambda>j. styledResult (generateContent env (apiCalls ?w1 + j)) (?low ! j))
                             [0..<length ?low])"
    and calls: "apiCalls w2 = apiCalls w + length capturedFrames"
    using styleFrames_runs [OF quiet, of "''Styling preview frame''"] styled by simp_all
  have fallback: "styledResult outcome frame = \<lparr>data = None, mimeType = None, src = src frame\<rparr>"
    if "\<not> returnsImage outcome" for outcome frame
    using that
    by (cases outcome) (auto simp: returnsImage_def styledResult_def split: option.splits)
  have each: "styledResult (generateContent env (apiCalls w + j)) (?low ! j) = ?preview ! j"
    if "j < length capturedFrames" for j
  proof -
    have "\<not> returnsImage (generateContent env (apiCalls w + j))"
      using assms(3) that by blast
    then show ?thesis
      using that by (simp add: fallback lowResFrame_def Let_def)
  qed
  have preview: "map (\<lambda>j. styledResult (generateContent env (apiCalls ?w1 + j)) (?low ! j))
                   [0..<length ?low] = ?preview"
  proof (rule nth_equalityI)
    show "length (map (\<lambda>j. styledResult (generateContent env (apiCalls ?w1 + j)) (?low ! j))
                   [0..<length ?low]) = length ?preview"
      by simp
  next
    fix i
    assume "i < length (map (\<lambda>j. styledResult (generateContent env (apiCalls ?w1 + j)) (?low ! j))
                   [0..<length ?low])"
    then have "i < length capturedFrames"
      by simp
    then show "map (\<lambda>j. styledResult (generateContent env (apiCalls ?w1 + j)) (?low ! j))
                   [0..<length ?low] ! i = ?preview ! i"
      using each [of i] by simp
  qed
  have "processVideoWithProgressivePreview env capturedFrames w =
      finalPass env capturedFrames (emit StartOutputAnimation (w2\<lparr>stylizedFrames := ?preview\<rparr>))"
    using low styled run assms(1) unfolding preview
    by (simp add: processVideoWithProgressivePreview_def Let_def)
  then show ?thesis
    using styled calls by simp
qed

text \<open>
  C1, as amended. For a captured sequence of more than one frame whose images load,
  when every styling call of the preview pass falls back to the original (none
  returns an image, none signals an invalid key), the run does not end in the
  preview pass: the preview pass returns the n unstyled low-resolution frames, they
  become \<open>stylizedFrames\<close>, the output animation is started, and the run is the
  final pass from there, which makes at least one styling call of its own. For any
  captured sequence, the run ends in the failure branch of the preview pass exactly
  when an image fails to load while the frames are scaled down, or the captured
  sequence is empty, the one case in which the no-frames error is thrown.
\<close>

theorem preview_of_fallbacks_goes_on:
  "(1 < length capturedFrames
      \<and> list_all (\<lambda>frame. imageLoads env (src frame)) capturedFrames
      \<and> (\<forall>j<length capturedFrames.
            \<not> returnsImage (generateContent env (apiCalls w + j))
            \<and> \<not> signalsInvalidKey (generateContent env (apiCalls w + j))) \<longrightarrow>
      fst (processVideoWithProgressivePreview env capturedFrames w) \<noteq> InvalidKeyInPreview
      \<and> (\<forall>e. fst (processVideoWithProgressivePreview env capturedFrames w) \<noteq> PreviewFailed e)
      \<and> apiCalls w + length capturedFrames
          < apiCalls (snd (processVideoWithProgressivePreview env capturedFrames w))
      \<and> stylizedFrames (snd (processVideoWithProgressivePreview env capturedFrames w)) =
          map (\<lambda>frame. \<lparr>data = None, mimeType = None, src = toDataURL env (src frame)\<rparr>)
            capturedFrames
      \<and> processVideoWithProgressivePreview env capturedFrames w =
          finalPass env capturedFrames
            (emit StartOutputAnimation
               ((snd (styleFrames env (map (lowResFrame env) capturedFrames)
                        ''Styling preview frame''
                        (setLoading True ''Generating low-quality preview...'' w)))
                \<lparr>stylizedFrames :=
                   map (\<lambda>frame. \<lparr>data = None, mimeType = None, src = toDataURL env (src frame)\<rparr>)
                     capturedFrames\<rparr>))
      \<and> StartOutputAnimation
          \<in> set (trace (snd (processVideoWithProgressivePreview env capturedFrames w))))
   \<and> fst (processVideoWithProgressivePreview env [] w) =
       PreviewFailed (Thrown (Error ''Preview generation failed. No frames were returned.''))
   \<and> (fst (processVideoWithProgressivePreview env capturedFrames w) = PreviewFailed failed \<longleftrightarrow>
        (\<not> list_all (\<lambda>frame. imageLoads env (src frame)) capturedFrames \<and> failed = ErrorEvent)
        \<or> (capturedFrames = []
            \<and> failed = Thrown (Error ''Preview generation failed. No frames were returned.'')))"
proof -
  let ?run = "processVideoWithProgressivePreview env capturedFrames w"
  let ?preview = "map (\<lambda>frame. \<lparr>data = None, mimeType = None, src = toDataURL env (src frame)\<rparr>)
                    capturedFrames"
  let ?w2 = "snd (styleFrames env (map (lowResFrame env) capturedFrames)
                    ''Styling preview frame''
                    (setLoading True ''Generating low-quality preview...'' w))"
  let ?w3 = "emit StartOutputAnimation (?w2\<lparr>stylizedFrames := ?preview\<rparr>)"
  have goes_on: "fst ?run \<noteq> InvalidKeyInPreview
      \<and> (\<forall>e. fst ?run \<noteq> PreviewFailed e)
      \<and> apiCalls w + length capturedFrames < apiCalls (snd ?run)
      \<and> stylizedFrames (snd ?run) = ?preview
      \<and> ?run = finalPass env capturedFrames ?w3
      \<and> StartOutputAnimation \<in> set (trace (snd ?run))"
    if long: "1 < length capturedFrames"
      and loads: "list_all (\<lambda>frame. imageLoads env (src frame)) capturedFrames"
      and falls: "\<forall>j<length capturedFrames.
            \<not> returnsImage (generateContent env (apiCalls w + j))
            \<and> \<not> signalsInvalidKey (generateContent env (apiCalls w + j))"
  proof -
    have nonempty: "capturedFrames \<noteq> []"
      using long by auto
    have unfolded: "?run = finalPass env capturedFrames ?w3"
      and calls: "apiCalls ?w2 = apiCalls w + length capturedFrames"
      using preview_fallbacks_run [OF nonempty loads falls] by simp_all
    have final: "apiCalls ?w3 < apiCalls (snd (finalPass env capturedFrames ?w3))"
      "stylizedFrames (snd (finalPass env capturedFrames ?w3)) = stylizedFrames ?w3"
      "fst (finalPass env capturedFrames ?w3) \<noteq> InvalidKeyInPreview"
      "\<forall>e. fst (finalPass env capturedFrames ?w3) \<noteq> PreviewFailed e"
      using finalPass_world [OF nonempty, of ?w3 env] by simp_all
    have "StartOutputAnimation \<in> set (trace ?w3)"
      by simp
    then have shown: "StartOutputAnimation \<in> set (trace (snd (finalPass env capturedFrames ?w3)))"
      by (rule finalPass_keeps_trace)
    show ?thesis
      using unfolded final calls shown by simp
  qed
  have empty: "fst (processVideoWithProgressivePreview env [] w) =
      PreviewFailed (Thrown (Error ''Preview generation failed. No frames were returned.''))"
    by (simp add: processVideoWithProgressivePreview_def createLowResFrames_def styleFrames_def
        previewCatch_def isInvalidKeyMessage_def Let_def)
  show ?thesis
    using goes_on empty preview_failure_characterised [of env capturedFrames w failed] by blast
qed

theorem preview_of_fallbacks_goes_on_witness:
  "fst (processVideoWithProgressivePreview
          (sampleEnv\<lparr>generateContent := (\<lambda>k. Failed ''TypeError: Failed to fetch'')\<rparr>)
          [sampleFrame, otherFrame, sampleFrame] initialWorld) \<noteq> InvalidKeyInPreview
   \<and> apiCalls initialWorld + 3
       < apiCalls (snd (processVideoWithProgressivePreview
          (sampleEnv\<lparr>generateContent := (\<lambda>k. Failed ''TypeError: Failed to fetch'')\<rparr>)
          [sampleFrame, otherFrame, sampleFrame] initialWorld))
   \<and> StartOutputAnimation
       \<in> set (trace (snd (processVideoWithProgressivePreview
          (sampleEnv\<lparr>generateContent := (\<lambda>k. Failed ''TypeError: Failed to fetch'')\<rparr>)
          [sampleFrame, otherFrame, sampleFrame] initialWorld)))
   \<and> fst (processVideoWithProgressivePreview
          (sampleEnv\<lparr>imageLoads := (\<lambda>source. source \<noteq> src otherFrame)\<rparr>)
          [sampleFrame, otherFrame] initialWorld) = PreviewFailed ErrorEvent"
proof -
  let ?env = "sampleEnv\<lparr>generateContent := (\<lambda>k. Failed ''TypeError: Failed to fetch'')\<rparr>"
  let ?frames = "[sampleFrame, otherFrame, sampleFrame]"
  have given: "1 < length ?frames
      \<and> list_all (\<lambda>frame. imageLoads ?env (src frame)) ?frames
      \<and> (\<forall>j<length ?frames.
            \<not> returnsImage (generateContent ?env (apiCalls initialWorld + j))
            \<and> \<not> signalsInvalidKey (generateContent ?env (apiCalls initialWorld + j)))"
    by (simp add: sampleEnv_def returnsImage_def signalsInvalidKey_def isInvalidKeyError_def)
  have "fst (processVideoWithProgressivePreview ?env ?frames initialWorld) \<noteq> InvalidKeyInPreview
      \<and> apiCalls initialWorld + length ?frames
          < apiCalls (snd (processVideoWithProgressivePreview ?env ?frames initialWorld))
      \<and> StartOutputAnimation
          \<in> set (trace (snd (processVideoWithProgressivePreview ?env ?frames initialWorld)))"
    using preview_of_fallbacks_goes_on
            [where capturedFrames = ?frames and env = ?env and w = initialWorld,
             THEN conjunct1, rule_format, OF given]
    by blast
  moreover have "fst (processVideoWithProgressivePreview
          (sampleEnv\<lparr>imageLoads := (\<lambda>source. source \<noteq> src otherFrame)\<rparr>)
          [sampleFrame, otherFrame] initialWorld) = PreviewFailed ErrorEvent"
  proof -
    have "\<not> list_all (\<lambda>frame. imageLoads
                (sampleEnv\<lparr>imageLoads := (\<lambda>source. source \<noteq> src otherFrame)\<rparr>) (src frame))
              [sampleFrame, otherFrame]"
      by simp
    then show ?thesis
      using preview_of_fallbacks_goes_on
              [where capturedFrames = "[sampleFrame, otherFrame]"
                 and env = "sampleEnv\<lparr>imageLoads := (\<lambda>source. source \<noteq> src otherFrame)\<rparr>"
                 and w = initialWorld and failed = ErrorEvent,
               THEN conjunct2, THEN conjunct2]
      by blast
  qed
  ultimately show ?thesis
    by simp
qed

text \<open>
  C1 as stated fails: with two frames and a preview pass in which no call returns
  an image, the run goes through the final pass (four calls in all) and shows the
  video.
\<close>

theorem preview_of_fallbacks_counterexample:
  "\<not> returnsImage (generateContent sampleEnv 0)
   \<and> \<not> returnsImage (generateContent sampleEnv 1)
   \<and> fst (processVideoWithProgressivePreview sampleEnv [sampleFrame, otherFrame] initialWorld) =
       VideoShown ''blob:video'' ''webm''
   \<and> apiCalls (snd (processVideoWithProgressivePreview sampleEnv [sampleFrame, otherFrame]
                      initialWorld)) = 4"
  by (simp add: sampleEnv_def returnsImage_def processVideoWithProgressivePreview_def
      createLowResFrames_def lowResFrame_def styleFrames_def finalPass_def
      createVideoFromFrames_def videoOptions_def sampleFrame_def otherFrame_def createFrame_def
      styledResult_def initialWorld_def setLoading_def emit_def requested_def Let_def)


section \<open>Properties of video sampling\<close>













end
